theory Spec2Isabelle
  imports Main
begin

section \<open>The monitor service of bluetti\_monitor\<close>

text \<open>
  A shallow embedding of \<^verbatim>\<open>src/bluetti_monitor/monitor_service.py\<close>: the table
  configuration, the building of one insert per table in \<^verbatim>\<open>_handle_message\<close>, the
  registration of devices in \<^verbatim>\<open>_handle_messages\<close> and the routing of a command in
  \<^verbatim>\<open>_handle_command\<close>. Names are the source's; a leading underscore of a
  method name is dropped, since an Isabelle name cannot start with one
  (\<open>handle_message\<close> is \<^verbatim>\<open>_handle_message\<close>, \<open>handle_command\<close> is
  \<^verbatim>\<open>_handle_command\<close>, \<open>init_device\<close> is \<^verbatim>\<open>_init_device\<close>).

  Python strings and byte strings are lists of \<open>char\<close>; a \<open>char\<close> is read as the
  code point (or byte) \<open>0..255\<close>, so the model covers the Latin-1 range of Python's
  \<^verbatim>\<open>str\<close>.
\<close>

subsection \<open>Exceptions and outcomes\<close>

datatype error =
    TypeError
  | AttributeError
  | MariaDBError string
  | ValueError
  | UnicodeDecodeError
  | AssertionError
  | SetterError string

text \<open>A coroutine either returns (\<^verbatim>\<open>None\<close>) or lets an exception propagate.\<close>

datatype outcome = Returned | Raised error

subsection \<open>Python values and their \<^verbatim>\<open>str\<close> and \<^verbatim>\<open>repr\<close>\<close>

text \<open>
  The values of a parsed field: a \<^verbatim>\<open>bool\<close>, a \<^verbatim>\<open>str\<close>, a \<^verbatim>\<open>list\<close>, or any
  other object that is not iterable (an \<^verbatim>\<open>int\<close>, a \<^verbatim>\<open>Decimal\<close>, an enum member),
  which is given by the two texts that \<^verbatim>\<open>str()\<close> and \<^verbatim>\<open>repr()\<close> return for it.
\<close>

datatype pyval =
    VBool bool
  | VStr string
  | VList "pyval list"
  | VOther string string

definition hex_digit :: "nat \<Rightarrow> char" where
  "hex_digit n = ''0123456789abcdef'' ! (n mod 16)"

definition hex_escape :: "char \<Rightarrow> string" where
  "hex_escape c = [CHR 0x5C, CHR ''x'', hex_digit (of_char c div 16), hex_digit (of_char c)]"

definition is_printable :: "char \<Rightarrow> bool" where
  "is_printable c =
     (let n = (of_char c :: nat)
      in 32 \<le> n \<and> n \<noteq> 127 \<and> \<not> (128 \<le> n \<and> n \<le> 160) \<and> n \<noteq> 173)"

text \<open>The quote \<^verbatim>\<open>repr\<close> of a \<^verbatim>\<open>str\<close> chooses: a double quote exactly when the text
  holds a single quote and no double quote.\<close>

definition repr_quote :: "string \<Rightarrow> char" where
  "repr_quote s = (if CHR 0x27 \<in> set s \<and> CHR 0x22 \<notin> set s then CHR 0x22 else CHR 0x27)"

definition repr_char :: "char \<Rightarrow> char \<Rightarrow> string" where
  "repr_char q c =
     (if c = q \<or> c = CHR 0x5C then [CHR 0x5C, c]
      else if c = CHR 0x09 then [CHR 0x5C, CHR ''t'']
      else if c = CHR 0x0A then [CHR 0x5C, CHR ''n'']
      else if c = CHR 0x0D then [CHR 0x5C, CHR ''r'']
      else if is_printable c then [c]
      else hex_escape c)"

definition repr_str :: "string \<Rightarrow> string" where
  "repr_str s = (let q = repr_quote s in [q] @ concat (map (repr_char q) s) @ [q])"

text \<open>\<^verbatim>\<open>', '.join(xs)\<close>.\<close>

fun join_comma :: "string list \<Rightarrow> string" where
  "join_comma [] = []"
| "join_comma [x] = x"
| "join_comma (x # y # ys) = x @ '', '' @ join_comma (y # ys)"

fun py_repr :: "pyval \<Rightarrow> string" where
  "py_repr (VBool b) = (if b then ''True'' else ''False'')"
| "py_repr (VStr s) = repr_str s"
| "py_repr (VList vs) = ''['' @ join_comma (map py_repr vs) @ '']''"
| "py_repr (VOther s r) = r"

definition py_str :: "pyval \<Rightarrow> string" where
  "py_str v = (case v of VStr s \<Rightarrow> s | VOther s r \<Rightarrow> s | _ \<Rightarrow> py_repr v)"

text \<open>\<^verbatim>\<open>[str(v) for v in value]\<close>: a list gives the list of its elements' \<^verbatim>\<open>str\<close>, a
  \<^verbatim>\<open>str\<close> is iterated character by character, anything else raises
  \<^verbatim>\<open>TypeError\<close>.\<close>

definition str_each :: "pyval \<Rightarrow> error + pyval" where
  "str_each value =
     (case value of
        VList vs \<Rightarrow> Inr (VList (map (\<lambda>v. VStr (py_str v)) vs))
      | VStr s \<Rightarrow> Inr (VList (map (\<lambda>c. VStr [c]) s))
      | _ \<Rightarrow> Inl TypeError)"

text \<open>\<^verbatim>\<open>s[:-2]\<close>.\<close>

definition drop_last2 :: "'a list \<Rightarrow> 'a list" where
  "drop_last2 s = take (length s - 2) s"

subsection \<open>Table configuration\<close>

text \<open>The attribute \<^verbatim>\<open>fields\<close> is \<open>table_fields\<close>: the record package keeps the name
  \<open>fields\<close> for itself.\<close>

record DBTableConfig =
  table_name :: string
  table_fields :: "string list"

definition general_data :: DBTableConfig where
  "general_data = \<lparr> table_name = ''general_data'',
     table_fields = [''device_type'', ''serial_number'', ''arm_version'', ''dsp_version'',
               ''dc_input_power'', ''ac_input_power'', ''ac_output_power'', ''dc_output_power'',
               ''power_generation'', ''total_battery_percent'', ''ac_output_on'',
               ''dc_output_on''] \<rparr>"

definition internal_data :: DBTableConfig where
  "internal_data = \<lparr> table_name = ''internal_data'',
     table_fields = [''ac_output_mode'', ''internal_ac_voltage'', ''internal_current_one'',
               ''internal_power_one'', ''internal_ac_frequency'', ''internal_current_two'',
               ''internal_power_two'', ''ac_input_voltage'', ''internal_current_three'',
               ''internal_power_three'', ''ac_input_frequency'', ''internal_dc_input_voltage'',
               ''internal_dc_input_power'', ''internal_dc_input_current''] \<rparr>"

definition setting_data :: DBTableConfig where
  "setting_data = \<lparr> table_name = ''settings_data'',
     table_fields = [''ups_mode'', ''split_phase_on'', ''split_phase_machine_mode'', ''pack_num'',
               ''ac_output_on'', ''dc_output_on'', ''grid_charge_on'', ''time_control_on'',
               ''battery_range_start'', ''battery_range_end'', ''bluetooth_connected'',
               ''auto_sleep_mode''] \<rparr>"

definition battery_pack_data :: DBTableConfig where
  "battery_pack_data = \<lparr> table_name = ''battery_pack_data'',
     table_fields = [''pack_num_max'', ''total_battery_voltage'', ''pack_num'', ''pack_voltage'',
               ''pack_battery_percent'', ''cell_voltages''] \<rparr>"

text \<open>The dictionary \<^verbatim>\<open>DATABASE_TABLES\<close> in its insertion order, which is the order
  \<^verbatim>\<open>.items()\<close> iterates in.\<close>

definition DATABASE_TABLES :: "(string \<times> DBTableConfig) list" where
  "DATABASE_TABLES =
     [(''general_data'', general_data), (''internal_data'', internal_data),
      (''setting_data'', setting_data), (''battery_pack_data'', battery_pack_data)]"

subsection \<open>Building one insert: the inner loop of \<^verbatim>\<open>_handle_message\<close>\<close>

text \<open>A parameter of \<^verbatim>\<open>cursor.execute\<close>: a native \<^verbatim>\<open>bool\<close> or a \<^verbatim>\<open>str\<close>.\<close>

datatype param = PBool bool | PStr string

text \<open>\<^verbatim>\<open>str(value) if type(value) != type(True) else value\<close>.\<close>

definition to_param :: "pyval \<Rightarrow> param" where
  "to_param value = (case value of VBool b \<Rightarrow> PBool b | _ \<Rightarrow> PStr (py_str value))"

text \<open>How the \<^verbatim>\<open>for ... else\<close> over \<^verbatim>\<open>msg.parsed.items()\<close> ends: by \<^verbatim>\<open>break\<close>, by
  an exception, or by running to its end with \<^verbatim>\<open>valueOrder\<close> and \<^verbatim>\<open>values\<close>.\<close>

datatype loop_end = Broke | Failed error | Completed string "param list"

text \<open>\<^verbatim>\<open>if name == 'cell_voltages': value = [str(v) for v in value]\<close>.\<close>

definition special_value :: "string \<Rightarrow> pyval \<Rightarrow> error + pyval" where
  "special_value name value = (if name = ''cell_voltages'' then str_each value else Inr value)"

fun row_loop :: "string list \<Rightarrow> (string \<times> pyval) list \<Rightarrow> string \<Rightarrow> param list \<Rightarrow> loop_end" where
  "row_loop flds [] valueOrder values = Completed valueOrder values"
| "row_loop flds ((name, value) # items) valueOrder values =
     (if name \<notin> set flds then Broke
      else case special_value name value of
             Inl e \<Rightarrow> Failed e
           | Inr v \<Rightarrow> row_loop flds items (valueOrder @ name @ '', '') (values @ [to_param v]))"

definition placeholders :: "nat \<Rightarrow> string" where
  "placeholders n = drop_last2 (concat (replicate n ''%s, ''))"

definition insert_query :: "DBTableConfig \<Rightarrow> string \<Rightarrow> param list \<Rightarrow> string" where
  "insert_query tableConfig valueOrder values =
     ''INSERT INTO '' @ table_name tableConfig @ '' (device, '' @ drop_last2 valueOrder
       @ '') VALUES ('' @ placeholders (length values) @ '')''"

subsection \<open>The database connection\<close>

text \<open>
  The connection is the MariaDB driver's. It is modelled by the statements executed on
  it: those of the open transaction and those committed. Whether the server accepts a
  statement is a parameter \<open>rejects\<close>, which gives the cause of the failure if it
  does not. \<^verbatim>\<open>self.conn\<close> is \<^verbatim>\<open>None\<close> when \<^verbatim>\<open>initDB\<close> could not connect.
\<close>

type_synonym statement = "string \<times> param list"

record connection =
  pending :: "statement list"
  committed :: "statement list"

definition cursor_execute ::
  "(statement \<Rightarrow> string option) \<Rightarrow> connection \<Rightarrow> string \<Rightarrow> param list \<Rightarrow> error + connection" where
  "cursor_execute rejects c query values =
     (case rejects (query, values) of
        Some cause \<Rightarrow> Inl (MariaDBError cause)
      | None \<Rightarrow> Inr (c\<lparr>pending := pending c @ [(query, values)]\<rparr>))"

definition commit :: "connection \<Rightarrow> connection" where
  "commit c = c\<lparr>committed := committed c @ pending c, pending := []\<rparr>"

text \<open>The outer loop of \<^verbatim>\<open>_handle_message\<close> over \<^verbatim>\<open>DATABASE_TABLES.items()\<close>.\<close>

fun persist_tables ::
  "(statement \<Rightarrow> string option) \<Rightarrow> string \<Rightarrow> (string \<times> pyval) list
     \<Rightarrow> (string \<times> DBTableConfig) list \<Rightarrow> connection option \<Rightarrow> outcome \<times> connection option" where
  "persist_tables rejects device_name parsed [] conn = (Returned, conn)"
| "persist_tables rejects device_name parsed ((tableName, tableConfig) # rest) conn =
     (case row_loop (table_fields tableConfig) parsed [] [PStr device_name] of
        Broke \<Rightarrow> persist_tables rejects device_name parsed rest conn
      | Failed e \<Rightarrow> (Raised e, conn)
      | Completed valueOrder values \<Rightarrow>
          (case conn of
             None \<Rightarrow> (Raised AttributeError, conn)
           | Some c \<Rightarrow>
               (case cursor_execute rejects c (insert_query tableConfig valueOrder values) values of
                  Inl e \<Rightarrow> (Raised e, conn)
                | Inr c' \<Rightarrow> persist_tables rejects device_name parsed rest (Some (commit c')))))"

subsection \<open>Devices and the service\<close>

text \<open>A value a setter is called with: the \<^verbatim>\<open>bool\<close>, \<^verbatim>\<open>int\<close> or \<^verbatim>\<open>str\<close> that
  \<^verbatim>\<open>_handle_command\<close> decodes from the payload.\<close>

datatype setter_value = SBool bool | SInt int | SStr string

text \<open>
  Modelled from the spec: the class \<^verbatim>\<open>BluettiDevice\<close> of \<^verbatim>\<open>bluetti_monitor.core\<close> is
  not among the sources. A device has the identity (type, serial) and the capability
  interface \<^verbatim>\<open>hasFieldSetter(fieldName) -> bool\<close>, \<^verbatim>\<open>buildSetterCommand(fieldName, value)
  -> Command\<close>; the command type is left open, and building a command may raise.
  \<open>oid\<close> tells the Python objects apart: two device objects with the same attributes
  differ in it, so that \<^verbatim>\<open>is\<close> is the equality of the records. \<open>dtype\<close> is the
  attribute \<^verbatim>\<open>type\<close>.
\<close>

record 'cmd BluettiDevice =
  oid :: nat
  dtype :: string
  sn :: string
  has_field_setter :: "string \<Rightarrow> bool"
  build_setter_command :: "string \<Rightarrow> setter_value \<Rightarrow> error + 'cmd"

record 'cmd ParserMessage =
  device :: "'cmd BluettiDevice"
  parsed :: "(string \<times> pyval) list"

text \<open>The calls of \<^verbatim>\<open>logging.warn\<close> in \<^verbatim>\<open>_handle_command\<close>, by their message.\<close>

datatype warning =
    UnknownCommandTopic string
  | UnknownDevice string string
  | UnknownTopic string string
  | UnhandledTopic string string

text \<open>The service: its device list, its connection, and what it has put on the event
  bus and into the log.\<close>

record 'cmd MonitorService =
  devices :: "'cmd BluettiDevice list"
  conn :: "connection option"
  bus :: "('cmd BluettiDevice \<times> 'cmd) list"
  warnings :: "warning list"

text \<open>\<^verbatim>\<open>_handle_message\<close>. The line it writes to the debug log is left out, and so is
  \<^verbatim>\<open>cursor.close()\<close>, which changes nothing that is modelled.\<close>

definition handle_message ::
  "(statement \<Rightarrow> string option) \<Rightarrow> 'cmd MonitorService \<Rightarrow> 'cmd ParserMessage
     \<Rightarrow> outcome \<times> 'cmd MonitorService" where
  "handle_message rejects self msg =
     (let device_name = dtype (device msg) @ ''-'' @ sn (device msg);
          (out, conn') = persist_tables rejects device_name (parsed msg) DATABASE_TABLES (conn self)
      in (out, self\<lparr>conn := conn'\<rparr>))"

subsection \<open>Registration: \<^verbatim>\<open>_handle_messages\<close> and \<^verbatim>\<open>_init_device\<close>\<close>

text \<open>
  Modelled from the spec: the class \<^verbatim>\<open>BluettiDevice\<close> is not among the sources, and with
  it what \<^verbatim>\<open>==\<close> is on two devices. The spec (4.2) says of the source that its
  device-list membership used default object equality: \<^verbatim>\<open>==\<close> holds between an object
  and itself only.
\<close>

definition device_eq :: "'cmd BluettiDevice \<Rightarrow> 'cmd BluettiDevice \<Rightarrow> bool" where
  "device_eq a b = (a = b)"

text \<open>\<^verbatim>\<open>msg.device in self.devices\<close> compares the device with each element by \<^verbatim>\<open>is\<close> and
  then by \<^verbatim>\<open>==\<close>.\<close>

definition device_in :: "'cmd BluettiDevice \<Rightarrow> 'cmd BluettiDevice list \<Rightarrow> bool" where
  "device_in d ds = list_ex (\<lambda>e. e = d \<or> device_eq e d) ds"

definition init_device :: "'cmd MonitorService \<Rightarrow> 'cmd BluettiDevice \<Rightarrow> 'cmd MonitorService" where
  "init_device self d = self\<lparr>devices := devices self @ [d]\<rparr>"

text \<open>The first two lines of the loop body of \<^verbatim>\<open>_handle_messages\<close>, and the condition
  they test.\<close>

definition was_new :: "'cmd MonitorService \<Rightarrow> 'cmd BluettiDevice \<Rightarrow> bool" where
  "was_new self d = (\<not> device_in d (devices self))"

definition register_device :: "'cmd MonitorService \<Rightarrow> 'cmd BluettiDevice \<Rightarrow> 'cmd MonitorService" where
  "register_device self d = (if was_new self d then init_device self d else self)"

text \<open>One turn of the \<^verbatim>\<open>while True\<close> loop of \<^verbatim>\<open>_handle_messages\<close>, for the message taken
  from the queue.\<close>

definition handle_messages_step ::
  "(statement \<Rightarrow> string option) \<Rightarrow> 'cmd MonitorService \<Rightarrow> 'cmd ParserMessage
     \<Rightarrow> outcome \<times> 'cmd MonitorService" where
  "handle_messages_step rejects self msg =
     handle_message rejects (register_device self (device msg)) msg"

text \<open>\<^verbatim>\<open>next((d for d in self.devices if d.type == t and d.sn == s), None)\<close>. A device
  that is found counts as true in the test \<^verbatim>\<open>if not device\<close> that follows.\<close>

definition find_device :: "'cmd BluettiDevice list \<Rightarrow> string \<Rightarrow> string \<Rightarrow> 'cmd BluettiDevice option" where
  "find_device ds t s = find (\<lambda>d. dtype d = t \<and> sn d = s) ds"

subsection \<open>The field table\<close>

datatype MessageFieldType = NUMERIC | BOOL | ENUM | BUTTON

text \<open>
  The attribute \<^verbatim>\<open>type\<close> of a \<^verbatim>\<open>MessageFieldConfig\<close> is annotated with the enumeration,
  and a dataclass does not enforce its annotations: \<open>NonMember\<close> stands for a value
  that is none of the four members, which is what the last \<^verbatim>\<open>else\<close> of
  \<^verbatim>\<open>_handle_command\<close> is written for.
\<close>

datatype field_type = Member MessageFieldType | NonMember

text \<open>Of the attributes of \<^verbatim>\<open>MessageFieldConfig\<close>, \<^verbatim>\<open>home_assistant_extra\<close> and
  \<^verbatim>\<open>id_override\<close> are left out: they are display data that no code here reads.\<close>

record MessageFieldConfig =
  type :: field_type
  setter :: bool
  advanced :: bool

definition NORMAL_DEVICE_FIELDS_items :: "(string \<times> MessageFieldConfig) list" where
  "NORMAL_DEVICE_FIELDS_items =
     [
      (''dc_input_power'', \<lparr> type = Member NUMERIC, setter = False, advanced = False \<rparr>),
      (''ac_input_power'', \<lparr> type = Member NUMERIC, setter = False, advanced = False \<rparr>),
      (''ac_output_power'', \<lparr> type = Member NUMERIC, setter = False, advanced = False \<rparr>),
      (''dc_output_power'', \<lparr> type = Member NUMERIC, setter = False, advanced = False \<rparr>),
      (''power_generation'', \<lparr> type = Member NUMERIC, setter = False, advanced = False \<rparr>),
      (''total_battery_percent'', \<lparr> type = Member NUMERIC, setter = False, advanced = False \<rparr>),
      (''ac_output_on'', \<lparr> type = Member BOOL, setter = True, advanced = False \<rparr>),
      (''dc_output_on'', \<lparr> type = Member BOOL, setter = True, advanced = False \<rparr>),
      (''ac_output_mode'', \<lparr> type = Member ENUM, setter = False, advanced = True \<rparr>),
      (''internal_ac_voltage'', \<lparr> type = Member NUMERIC, setter = False, advanced = True \<rparr>),
      (''internal_current_one'', \<lparr> type = Member NUMERIC, setter = False, advanced = True \<rparr>),
      (''internal_power_one'', \<lparr> type = Member NUMERIC, setter = False, advanced = True \<rparr>),
      (''internal_ac_frequency'', \<lparr> type = Member NUMERIC, setter = False, advanced = True \<rparr>),
      (''internal_current_two'', \<lparr> type = Member NUMERIC, setter = False, advanced = True \<rparr>),
      (''internal_power_two'', \<lparr> type = Member NUMERIC, setter = False, advanced = True \<rparr>),
      (''ac_input_voltage'', \<lparr> type = Member NUMERIC, setter = False, advanced = True \<rparr>),
      (''internal_current_three'', \<lparr> type = Member NUMERIC, setter = False, advanced = True \<rparr>),
      (''internal_power_three'', \<lparr> type = Member NUMERIC, setter = False, advanced = True \<rparr>),
      (''ac_input_frequency'', \<lparr> type = Member NUMERIC, setter = False, advanced = True \<rparr>),
      (''total_battery_voltage'', \<lparr> type = Member NUMERIC, setter = False, advanced = True \<rparr>),
      (''total_battery_current'', \<lparr> type = Member NUMERIC, setter = False, advanced = True \<rparr>),
      (''ups_mode'', \<lparr> type = Member ENUM, setter = True, advanced = False \<rparr>),
      (''split_phase_on'', \<lparr> type = Member BOOL, setter = False, advanced = False \<rparr>),
      (''split_phase_machine_mode'', \<lparr> type = Member ENUM, setter = False, advanced = False \<rparr>),
      (''grid_charge_on'', \<lparr> type = Member BOOL, setter = True, advanced = False \<rparr>),
      (''time_control_on'', \<lparr> type = Member BOOL, setter = True, advanced = False \<rparr>),
      (''battery_range_start'', \<lparr> type = Member NUMERIC, setter = True, advanced = False \<rparr>),
      (''battery_range_end'', \<lparr> type = Member NUMERIC, setter = True, advanced = False \<rparr>),
      (''led_mode'', \<lparr> type = Member ENUM, setter = True, advanced = False \<rparr>),
      (''power_off'', \<lparr> type = Member BUTTON, setter = True, advanced = False \<rparr>),
      (''auto_sleep_mode'', \<lparr> type = Member ENUM, setter = True, advanced = False \<rparr>),
      (''eco_on'', \<lparr> type = Member BOOL, setter = True, advanced = False \<rparr>),
      (''eco_shutdown'', \<lparr> type = Member ENUM, setter = True, advanced = False \<rparr>),
      (''charging_mode'', \<lparr> type = Member ENUM, setter = True, advanced = False \<rparr>),
      (''power_lifting_on'', \<lparr> type = Member BOOL, setter = True, advanced = False \<rparr>)]"

definition NORMAL_DEVICE_FIELDS :: "string \<rightharpoonup> MessageFieldConfig" where
  "NORMAL_DEVICE_FIELDS = map_of NORMAL_DEVICE_FIELDS_items"

subsection \<open>The topic pattern\<close>

text \<open>
  \<^verbatim>\<open>COMMAND_TOPIC_RE = re.compile(r'^bluetti/command/(\w+)-(\d+)/([a-z_]+)$')\<close>.
  On code points below 256, \<^verbatim>\<open>\w\<close> is the ASCII letters and digits, the underscore
  and the Latin-1 letters and numeric characters; \<^verbatim>\<open>\d\<close> is the ASCII digits.
\<close>

definition is_digit_char :: "char \<Rightarrow> bool" where
  "is_digit_char c = (let n = (of_char c :: nat) in 48 \<le> n \<and> n \<le> 57)"

definition is_field_char :: "char \<Rightarrow> bool" where
  "is_field_char c = (let n = (of_char c :: nat) in (97 \<le> n \<and> n \<le> 122) \<or> n = 95)"

definition is_word_char :: "char \<Rightarrow> bool" where
  "is_word_char c =
     (let n = (of_char c :: nat)
      in (48 \<le> n \<and> n \<le> 57) \<or> (65 \<le> n \<and> n \<le> 90) \<or> n = 95 \<or> (97 \<le> n \<and> n \<le> 122)
         \<or> n = 170 \<or> n = 178 \<or> n = 179 \<or> n = 181 \<or> n = 185 \<or> n = 186
         \<or> (188 \<le> n \<and> n \<le> 190) \<or> (192 \<le> n \<and> n \<le> 214) \<or> (216 \<le> n \<and> n \<le> 246)
         \<or> 248 \<le> n)"

fun strip_prefix :: "string \<Rightarrow> string \<Rightarrow> string option" where
  "strip_prefix [] s = Some s"
| "strip_prefix (p # ps) [] = None"
| "strip_prefix (p # ps) (c # cs) = (if p = c then strip_prefix ps cs else None)"

text \<open>
  \<^verbatim>\<open>COMMAND_TOPIC_RE.match(topic)\<close>, with the three groups of a match. Each group is
  greedy and the character after it is outside its class, so the longest run is the
  only candidate; \<^verbatim>\<open>$\<close> matches at the end of the text and before a newline that ends
  it.
\<close>

definition COMMAND_TOPIC_RE_match :: "string \<Rightarrow> (string \<times> string \<times> string) option" where
  "COMMAND_TOPIC_RE_match topic =
     (case strip_prefix ''bluetti/command/'' topic of
        None \<Rightarrow> None
      | Some r1 \<Rightarrow>
          (let m1 = takeWhile is_word_char r1 in
           case dropWhile is_word_char r1 of
             c2 # r2 \<Rightarrow>
               (let m2 = takeWhile is_digit_char r2 in
                case dropWhile is_digit_char r2 of
                  c3 # r3 \<Rightarrow>
                    (let m3 = takeWhile is_field_char r3; r4 = dropWhile is_field_char r3 in
                     if m1 \<noteq> [] \<and> c2 = CHR ''-'' \<and> m2 \<noteq> [] \<and> c3 = CHR ''/'' \<and> m3 \<noteq> []
                        \<and> (r4 = [] \<or> r4 = [CHR 0x0A])
                     then Some (m1, m2, m3) else None)
                | [] \<Rightarrow> None)
           | [] \<Rightarrow> None))"

text \<open>
  The grammar of the spec, \<^verbatim>\<open>bluetti/command/<type>-<serial>/<field>\<close>, with the three
  parts as the pattern has them: the type a run of word characters, the serial a run of
  digits, the field a run of lower-case letters and underscores, and nothing after the
  field. This definition follows the words of the spec, not the code.
\<close>

definition topic_grammar :: "string \<Rightarrow> (string \<times> string \<times> string) option" where
  "topic_grammar topic =
     (case strip_prefix ''bluetti/command/'' topic of
        None \<Rightarrow> None
      | Some r1 \<Rightarrow>
          (let type_part = takeWhile is_word_char r1 in
           case dropWhile is_word_char r1 of
             c2 # r2 \<Rightarrow>
               (let serial_part = takeWhile is_digit_char r2 in
                case dropWhile is_digit_char r2 of
                  c3 # field_part \<Rightarrow>
                    if type_part \<noteq> [] \<and> c2 = CHR ''-'' \<and> serial_part \<noteq> [] \<and> c3 = CHR ''/''
                       \<and> field_part \<noteq> [] \<and> list_all is_field_char field_part
                    then Some (type_part, serial_part, field_part) else None
                | [] \<Rightarrow> None)
           | [] \<Rightarrow> None))"

subsection \<open>Decoding a payload\<close>

text \<open>\<^verbatim>\<open>payload.decode('ascii')\<close>.\<close>

definition decode_ascii :: "string \<Rightarrow> error + string" where
  "decode_ascii payload =
     (if list_all (\<lambda>c. (of_char c :: nat) < 128) payload then Inr payload
      else Inl UnicodeDecodeError)"

text \<open>
  \<^verbatim>\<open>int(s)\<close> on an ASCII text: white space around, an optional sign, then decimal
  digits, where single underscores may stand between digits. \<open>lim\<close> is the
  interpreter's limit on the number of digits (\<^verbatim>\<open>sys.get_int_max_str_digits()\<close>, which
  is 0 for no limit and at least 640 otherwise; interpreters before Python 3.11 behave
  as with 0).
\<close>

definition is_space_char :: "char \<Rightarrow> bool" where
  "is_space_char c = (let n = (of_char c :: nat) in (9 \<le> n \<and> n \<le> 13) \<or> n = 32)"

definition is_underscore :: "char \<Rightarrow> bool" where
  "is_underscore c = (c = CHR ''_'')"

fun single_underscores :: "string \<Rightarrow> bool" where
  "single_underscores (a # b # cs) =
     (\<not> (is_underscore a \<and> is_underscore b) \<and> single_underscores (b # cs))"
| "single_underscores cs = True"

definition digits_value :: "string \<Rightarrow> nat" where
  "digits_value ds = foldl (\<lambda>a c. 10 * a + (of_char c - 48)) 0 ds"

definition py_int :: "nat \<Rightarrow> string \<Rightarrow> error + int" where
  "py_int lim s =
     (let s1 = dropWhile is_space_char s;
          (neg, s2) = (case s1 of
                         c # cs \<Rightarrow> if c = CHR ''-'' then (True, cs)
                                   else if c = CHR ''+'' then (False, cs) else (False, s1)
                       | [] \<Rightarrow> (False, s1));
          body = takeWhile (\<lambda>c. is_digit_char c \<or> is_underscore c) s2;
          rest = dropWhile (\<lambda>c. is_digit_char c \<or> is_underscore c) s2;
          ds = filter is_digit_char body
      in if body = [] \<or> is_underscore (hd body) \<or> is_underscore (last body)
            \<or> \<not> single_underscores body \<or> \<not> list_all is_space_char rest
            \<or> (0 < lim \<and> lim < length ds)
         then Inl ValueError
         else Inr (if neg then - int (digits_value ds) else int (digits_value ds)))"

text \<open>The \<^verbatim>\<open>if\<close>/\<^verbatim>\<open>elif\<close> chain of \<^verbatim>\<open>_handle_command\<close> on \<^verbatim>\<open>field.type\<close>, in its order,
  up to the value the setter is called with.\<close>

definition setter_value_of :: "nat \<Rightarrow> field_type \<Rightarrow> string \<Rightarrow> error + setter_value" where
  "setter_value_of lim t payload =
     (if t = Member ENUM then
        (case decode_ascii payload of Inl e \<Rightarrow> Inl e | Inr s \<Rightarrow> Inr (SStr s))
      else if t = Member BOOL \<or> t = Member BUTTON then Inr (SBool (payload = ''ON''))
      else if t = Member NUMERIC then
        (case decode_ascii payload of
           Inl e \<Rightarrow> Inl e
         | Inr s \<Rightarrow> (case py_int lim s of Inl e \<Rightarrow> Inl e | Inr n \<Rightarrow> Inr (SInt n)))
      else Inl AssertionError)"

subsection \<open>Routing a command: \<^verbatim>\<open>_handle_command\<close>\<close>

definition warn :: "'cmd MonitorService \<Rightarrow> warning \<Rightarrow> 'cmd MonitorService" where
  "warn self w = self\<lparr>warnings := warnings self @ [w]\<rparr>"

text \<open>\<open>handle_command_with\<close> is \<^verbatim>\<open>_handle_command\<close> over any field table;
  \<open>handle_command\<close> is the method, over \<^verbatim>\<open>NORMAL_DEVICE_FIELDS\<close>.\<close>

definition handle_command_with ::
  "(string \<rightharpoonup> MessageFieldConfig) \<Rightarrow> nat \<Rightarrow> 'cmd MonitorService \<Rightarrow> string \<Rightarrow> string
     \<Rightarrow> outcome \<times> 'cmd MonitorService" where
  "handle_command_with table lim self topic payload =
     (case COMMAND_TOPIC_RE_match topic of
        None \<Rightarrow> (Returned, warn self (UnknownCommandTopic topic))
      | Some (m1, m2, m3) \<Rightarrow>
          (case find_device (devices self) m1 m2 of
             None \<Rightarrow> (Returned, warn self (UnknownDevice m1 m2))
           | Some d \<Rightarrow>
               if \<not> has_field_setter d m3 then (Returned, warn self (UnknownTopic m3 topic))
               else
                 (case table m3 of
                    None \<Rightarrow> (Returned, warn self (UnhandledTopic m3 topic))
                  | Some field \<Rightarrow>
                      (case setter_value_of lim (type field) payload of
                         Inl e \<Rightarrow> (Raised e, self)
                       | Inr v \<Rightarrow>
                           (case build_setter_command d m3 v of
                              Inl e \<Rightarrow> (Raised e, self)
                            | Inr cmd \<Rightarrow> (Returned, self\<lparr>bus := bus self @ [(d, cmd)]\<rparr>))))))"

definition handle_command ::
  "nat \<Rightarrow> 'cmd MonitorService \<Rightarrow> string \<Rightarrow> string \<Rightarrow> outcome \<times> 'cmd MonitorService" where
  "handle_command = handle_command_with NORMAL_DEVICE_FIELDS"

subsection \<open>Reading what was built\<close>

text \<open>
  The definitions of this part are not code of the service: they read a statement back,
  so that the properties of the statements can be stated.

  The parameter a completed row holds for one item of the event, and the columns and
  parameters of a whole event.
\<close>

definition row_param :: "string \<times> pyval \<Rightarrow> param" where
  "row_param item =
     (case special_value (fst item) (snd item) of Inr v \<Rightarrow> to_param v | Inl e \<Rightarrow> to_param (snd item))"

text \<open>An event has an item that raises: a field \<^verbatim>\<open>cell_voltages\<close> whose value cannot be
  iterated.\<close>

definition raises_in_row :: "(string \<times> pyval) list \<Rightarrow> bool" where
  "raises_in_row items = list_ex (\<lambda>item. case special_value (fst item) (snd item) of Inl e \<Rightarrow> True | Inr v \<Rightarrow> False) items"

text \<open>A statement is an insert into the table \<open>tn\<close> when its text starts with
  \<^verbatim>\<open>INSERT INTO tn (\<close>.\<close>

definition is_insert_into :: "string \<Rightarrow> statement \<Rightarrow> bool" where
  "is_insert_into tn st = (strip_prefix (''INSERT INTO '' @ tn @ '' ('') (fst st) \<noteq> None)"

text \<open>The statements a call has committed on a connection.\<close>

definition new_statements :: "connection \<Rightarrow> connection \<Rightarrow> statement list" where
  "new_statements c c' = drop (length (committed c)) (committed c')"

text \<open>The number of \<^verbatim>\<open>%s\<close> in a text.\<close>

fun count_placeholders :: "string \<Rightarrow> nat" where
  "count_placeholders (a # b # cs) =
     (if a = CHR ''%'' \<and> b = CHR ''s'' then Suc (count_placeholders cs)
      else count_placeholders (b # cs))"
| "count_placeholders cs = 0"

text \<open>\<^verbatim>\<open>text.split(', ')\<close>, with the piece read so far in \<open>acc\<close>.\<close>

fun split_comma :: "string \<Rightarrow> string \<Rightarrow> string list" where
  "split_comma acc [] = [acc]"
| "split_comma acc [c] = [acc @ [c]]"
| "split_comma acc (a # b # cs) =
     (if a = CHR '','' \<and> b = CHR '' '' then acc # split_comma [] cs
      else split_comma (acc @ [a]) (b # cs))"

text \<open>The column names a statement lists: the pieces, other than empty ones, of the text
  between the first opening and the first closing parenthesis.\<close>

definition column_names :: "string \<Rightarrow> string list" where
  "column_names query =
     filter (\<lambda>name. name \<noteq> [])
       (split_comma [] (takeWhile (\<lambda>c. c \<noteq> CHR '')'') (drop 1 (dropWhile (\<lambda>c. c \<noteq> CHR ''('') query))))"

text \<open>The statement one table gives for an event, if its loop runs to the end, and the
  statements of a list of tables, in their order.\<close>

definition built_one :: "string \<Rightarrow> (string \<times> pyval) list \<Rightarrow> DBTableConfig \<Rightarrow> statement list" where
  "built_one device_name items tableConfig =
     (case row_loop (table_fields tableConfig) items [] [PStr device_name] of
        Completed valueOrder values \<Rightarrow> [(insert_query tableConfig valueOrder values, values)]
      | _ \<Rightarrow> [])"

definition built_statements ::
  "string \<Rightarrow> (string \<times> pyval) list \<Rightarrow> (string \<times> DBTableConfig) list \<Rightarrow> statement list" where
  "built_statements device_name items tables =
     concat (map (\<lambda>entry. built_one device_name items (snd entry)) tables)"

subsection \<open>Example data\<close>

text \<open>A device whose commands are the pairs of a field name and a value, a service that
  knows it and has an open connection, and some events.\<close>

definition AC200 :: "(string \<times> setter_value) BluettiDevice" where
  "AC200 = \<lparr> oid = 1, dtype = ''AC200'', sn = ''100'',
     has_field_setter = (\<lambda>name. name \<in> set [''ac_output_on'', ''battery_range_start'', ''power_off'', ''ups_mode'']),
     build_setter_command = (\<lambda>name v. Inr (name, v)) \<rparr>"

definition service0 :: "(string \<times> setter_value) MonitorService" where
  "service0 = \<lparr> devices = [AC200], conn = Some \<lparr> pending = [], committed = [] \<rparr>,
     bus = [], warnings = [] \<rparr>"

definition pack_event :: "(string \<times> pyval) list" where
  "pack_event =
     [(''pack_num_max'', VOther ''2'' ''2''), (''total_battery_voltage'', VOther ''53.1'' ''Decimal('53.1')''),
      (''pack_num'', VOther ''1'' ''1''), (''pack_voltage'', VOther ''53.0'' ''Decimal('53.0')''),
      (''pack_battery_percent'', VOther ''80'' ''80''),
      (''cell_voltages'', VList [VOther ''3.31'' ''Decimal('3.31')'', VOther ''3.32'' ''Decimal('3.32')''])]"

definition extra_event :: "(string \<times> pyval) list" where
  "extra_event = pack_event @ [(''ups_mode'', VStr ''STANDARD'')]"

definition mixed_event :: "(string \<times> pyval) list" where
  "mixed_event = [(''ac_output_on'', VBool True), (''pack_num'', VOther ''1'' ''1'')]"

text \<open>A server that rejects every insert into \<^verbatim>\<open>settings_data\<close>.\<close>

definition rejects_settings :: "statement \<Rightarrow> string option" where
  "rejects_settings st = (if is_insert_into ''settings_data'' st then Some ''Deadlock found'' else None)"

text \<open>A name of lower-case letters and underscores, as all names of the tables are.\<close>

definition plain_name :: "string \<Rightarrow> bool" where
  "plain_name n = (n \<noteq> [] \<and> list_all is_field_char n)"

text \<open>A second object for the same device, and a service that knows no device yet.\<close>

definition AC200_again :: "(string \<times> setter_value) BluettiDevice" where
  "AC200_again = AC200\<lparr>oid := 2\<rparr>"

definition empty_service :: "(string \<times> setter_value) MonitorService" where
  "empty_service = \<lparr> devices = [], conn = Some \<lparr> pending = [], committed = [] \<rparr>,
     bus = [], warnings = [] \<rparr>"

text \<open>A field table with an entry whose type is none of the four members.\<close>

definition mystery_table :: "string \<rightharpoonup> MessageFieldConfig" where
  "mystery_table = [''ups_mode'' \<mapsto> \<lparr> type = NonMember, setter = True, advanced = False \<rparr>]"

section \<open>Properties\<close>

subsection \<open>The row loop and the loop over the tables\<close>

lemma row_loop_Completed_iff:
  "row_loop flds items vo vals = Completed vo' vals' \<longleftrightarrow>
     set (map fst items) \<subseteq> set flds \<and> \<not> raises_in_row items
     \<and> vo' = vo @ concat (map (\<lambda>item. fst item @ '', '') items)
     \<and> vals' = vals @ map row_param items"
proof (induction items arbitrary: vo vals)
  case Nil
  show ?case by (auto simp: raises_in_row_def)
next
  case (Cons item items)
  obtain name v where item: "item = (name, v)" by (cases item)
  show ?case
  proof (cases "name \<in> set flds")
    case False
    then show ?thesis by (simp add: item)
  next
    case True
    show ?thesis
    proof (cases "special_value name v")
      case (Inl e)
      then show ?thesis using True by (simp add: item raises_in_row_def)
    next
      case (Inr w)
      then show ?thesis using True Cons.IH [of "vo @ name @ '', ''" "vals @ [to_param w]"]
        by (auto simp: item raises_in_row_def row_param_def)
    qed
  qed
qed

lemma row_loop_Broke:
  "row_loop flds items vo vals = Broke \<Longrightarrow> \<not> set (map fst items) \<subseteq> set flds"
proof (induction items arbitrary: vo vals)
  case Nil
  then show ?case by simp
next
  case (Cons item items)
  obtain name v where item: "item = (name, v)" by (cases item)
  from Cons.prems Cons.IH show ?case
    by (auto simp: item split: if_splits sum.splits)
qed

lemma drop_last2_columns:
  "drop_last2 (concat (map (\<lambda>item. fst item @ '', '') items)) = join_comma (map fst items)"
proof (induction items rule: induct_list012)
  case 1
  show ?case by (simp add: drop_last2_def)
next
  case (2 x)
  show ?case by (simp add: drop_last2_def)
next
  case (3 x y zs)
  have "drop_last2 (a @ b) = a @ drop_last2 b" if "2 \<le> length b" for a b :: string
    using that by (simp add: drop_last2_def)
  from this [of "concat (map (\<lambda>item. fst item @ '', '') (y # zs))" "fst x @ '', ''"] 3(2)
  show ?case by simp
qed

lemma commit_execute:
  "pending c = [] \<Longrightarrow> rejects (q, vs) = None \<Longrightarrow>
   cursor_execute rejects c q vs = Inr c' \<Longrightarrow>
   pending (commit c') = [] \<and> committed (commit c') = committed c @ [(q, vs)]"
  by (auto simp: cursor_execute_def commit_def)

lemma cursor_execute_cases:
  "cursor_execute rejects c q vs =
     (case rejects (q, vs) of Some cause \<Rightarrow> Inl (MariaDBError cause)
      | None \<Rightarrow> Inr (c\<lparr>pending := pending c @ [(q, vs)]\<rparr>))"
  by (simp add: cursor_execute_def)

lemma persist_tables_prefix:
  "pending c = [] \<Longrightarrow> persist_tables rejects dn items tables (Some c) = (out, conn') \<Longrightarrow>
   \<exists>c' ss rest. conn' = Some c' \<and> pending c' = [] \<and> committed c' = committed c @ ss
      \<and> built_statements dn items tables = ss @ rest
      \<and> (out = Returned \<longrightarrow> rest = [])"
proof (induction tables arbitrary: c)
  case Nil
  then show ?case by (auto simp: built_statements_def)
next
  case (Cons entry tables)
  obtain k tc where entry: "entry = (k, tc)" by (cases entry)
  show ?case
  proof (cases "row_loop (table_fields tc) items [] [PStr dn]")
    case Broke
    with Cons.prems have "persist_tables rejects dn items tables (Some c) = (out, conn')"
      by (simp add: entry)
    from Cons.IH [OF Cons.prems(1) this] Broke show ?thesis
      by (simp add: entry built_statements_def built_one_def)
  next
    case (Failed e)
    with Cons.prems have "conn' = Some c" "out = Raised e" by (simp_all add: entry)
    with Cons.prems(1) show ?thesis by auto
  next
    case (Completed vo vals)
    let ?q = "insert_query tc vo vals"
    have b1: "built_statements dn items (entry # tables) = (?q, vals) # built_statements dn items tables"
      using Completed by (simp add: entry built_statements_def built_one_def)
    show ?thesis
    proof (cases "rejects (?q, vals)")
      case (Some cause)
      with Completed Cons.prems have "conn' = Some c" "out = Raised (MariaDBError cause)"
        by (simp_all add: entry cursor_execute_cases)
      with Cons.prems(1) show ?thesis by auto
    next
      case None
      let ?c1 = "commit (c\<lparr>pending := pending c @ [(?q, vals)]\<rparr>)"
      have c1: "pending ?c1 = []" "committed ?c1 = committed c @ [(?q, vals)]"
        using Cons.prems(1) by (simp_all add: commit_def)
      from None Completed Cons.prems
      have "persist_tables rejects dn items tables (Some ?c1) = (out, conn')"
        by (simp add: entry cursor_execute_cases)
      from Cons.IH [OF c1(1) this] obtain c' ss rest where
        r: "conn' = Some c'" "pending c' = []" "committed c' = committed ?c1 @ ss"
           "built_statements dn items tables = ss @ rest" "out = Returned \<longrightarrow> rest = []"
        by blast
      show ?thesis
        using r c1(2) b1 by (intro exI [of _ c'] exI [of _ "(?q, vals) # ss"] exI [of _ rest]) simp
    qed
  qed
qed

lemma raises_in_row_iff:
  "raises_in_row items \<longleftrightarrow> (\<exists>item\<in>set items. \<exists>e. special_value (fst item) (snd item) = Inl e)"
proof -
  have "(case x of Inl e \<Rightarrow> True | Inr v \<Rightarrow> False) \<longleftrightarrow> (\<exists>e. x = Inl e)" for x :: "error + pyval"
    by (cases x) auto
  then show ?thesis by (simp add: raises_in_row_def list_ex_iff)
qed

lemma row_loop_Failed:
  "row_loop flds items vo vals = Failed e \<Longrightarrow> raises_in_row items"
proof (induction items arbitrary: vo vals)
  case Nil
  then show ?case by simp
next
  case (Cons item items)
  obtain n v where item: "item = (n, v)" by (cases item)
  show ?case
  proof (cases "special_value n v")
    case (Inl e')
    then show ?thesis by (auto simp: raises_in_row_iff item)
  next
    case (Inr w)
    with Cons.prems have "row_loop flds items (vo @ n @ '', '') (vals @ [to_param w]) = Failed e"
      by (simp add: item split: if_splits)
    from Cons.IH [OF this] show ?thesis by (auto simp: raises_in_row_iff)
  qed
qed

lemma persist_tables_accepting:
  "pending c = [] \<Longrightarrow> \<forall>st. rejects st = None \<Longrightarrow> \<not> raises_in_row items \<Longrightarrow>
   \<exists>c'. persist_tables rejects dn items tables (Some c) = (Returned, Some c')
      \<and> pending c' = [] \<and> committed c' = committed c @ built_statements dn items tables"
proof (induction tables arbitrary: c)
  case Nil
  then show ?case by (simp add: built_statements_def)
next
  case (Cons entry tables)
  obtain k tc where entry: "entry = (k, tc)" by (cases entry)
  show ?case
  proof (cases "row_loop (table_fields tc) items [] [PStr dn]")
    case Broke
    with Cons.IH [OF Cons.prems] show ?thesis
      by (simp add: entry built_statements_def built_one_def)
  next
    case (Failed e)
    with row_loop_Failed Cons.prems(3) show ?thesis by blast
  next
    case (Completed vo vals)
    let ?q = "insert_query tc vo vals"
    let ?c1 = "commit (c\<lparr>pending := pending c @ [(?q, vals)]\<rparr>)"
    have c1: "pending ?c1 = []" "committed ?c1 = committed c @ [(?q, vals)]"
      using Cons.prems(1) by (simp_all add: commit_def)
    from Cons.IH [OF c1(1) Cons.prems(2,3)] obtain c' where
      "persist_tables rejects dn items tables (Some ?c1) = (Returned, Some c')"
      "pending c' = []" "committed c' = committed ?c1 @ built_statements dn items tables"
      by blast
    with Completed Cons.prems(2) c1 show ?thesis
      by (simp add: entry cursor_execute_cases built_statements_def built_one_def)
  qed
qed

lemma table_names:
  "table_name general_data = ''general_data''" "table_name internal_data = ''internal_data''"
  "table_name setting_data = ''settings_data''" "table_name battery_pack_data = ''battery_pack_data''"
  by (simp_all add: general_data_def internal_data_def setting_data_def battery_pack_data_def)

lemma filter_built_one:
  "filter (is_insert_into ''general_data'') (built_one dn items general_data) = built_one dn items general_data"
  "filter (is_insert_into ''general_data'') (built_one dn items internal_data) = []"
  "filter (is_insert_into ''general_data'') (built_one dn items setting_data) = []"
  "filter (is_insert_into ''general_data'') (built_one dn items battery_pack_data) = []"
  "filter (is_insert_into ''internal_data'') (built_one dn items general_data) = []"
  "filter (is_insert_into ''internal_data'') (built_one dn items internal_data) = built_one dn items internal_data"
  "filter (is_insert_into ''internal_data'') (built_one dn items setting_data) = []"
  "filter (is_insert_into ''internal_data'') (built_one dn items battery_pack_data) = []"
  "filter (is_insert_into ''settings_data'') (built_one dn items general_data) = []"
  "filter (is_insert_into ''settings_data'') (built_one dn items internal_data) = []"
  "filter (is_insert_into ''settings_data'') (built_one dn items setting_data) = built_one dn items setting_data"
  "filter (is_insert_into ''settings_data'') (built_one dn items battery_pack_data) = []"
  "filter (is_insert_into ''battery_pack_data'') (built_one dn items general_data) = []"
  "filter (is_insert_into ''battery_pack_data'') (built_one dn items internal_data) = []"
  "filter (is_insert_into ''battery_pack_data'') (built_one dn items setting_data) = []"
  "filter (is_insert_into ''battery_pack_data'') (built_one dn items battery_pack_data) = built_one dn items battery_pack_data"
  by (simp_all add: built_one_def is_insert_into_def insert_query_def table_names split: loop_end.splits)

lemma filter_built_statements:
  assumes "(k, tc) \<in> set DATABASE_TABLES"
  shows "filter (is_insert_into (table_name tc)) (built_statements dn items DATABASE_TABLES)
           = built_one dn items tc"
proof -
  from assms consider "tc = general_data" | "tc = internal_data" | "tc = setting_data"
    | "tc = battery_pack_data"
    by (auto simp: DATABASE_TABLES_def)
  then show ?thesis
    by cases (simp_all add: built_statements_def DATABASE_TABLES_def table_names filter_built_one)
qed

lemma built_one_Completed:
  assumes "set (map fst items) \<subseteq> set (table_fields tc)" and "\<not> raises_in_row items"
  shows "built_one dn items tc =
           [(''INSERT INTO '' @ table_name tc @ '' (device, '' @ join_comma (map fst items)
               @ '') VALUES ('' @ placeholders (Suc (length items)) @ '')'',
             PStr dn # map row_param items)]"
proof -
  have "row_loop (table_fields tc) items [] [PStr dn] =
          Completed (concat (map (\<lambda>item. fst item @ '', '') items)) (PStr dn # map row_param items)"
    using assms by (simp add: row_loop_Completed_iff)
  then show ?thesis
    by (simp add: built_one_def insert_query_def drop_last2_columns)
qed

lemma built_one_missing:
  assumes "\<not> set (map fst items) \<subseteq> set (table_fields tc)"
  shows "built_one dn items tc = []"
proof (cases "row_loop (table_fields tc) items [] [PStr dn]")
  case (Completed vo vals)
  with assms show ?thesis by (simp add: row_loop_Completed_iff)
qed (simp_all add: built_one_def)

text \<open>Evaluating the service on the example data.\<close>

lemmas eval_defs = handle_message_def DATABASE_TABLES_def general_data_def internal_data_def
  setting_data_def battery_pack_data_def special_value_def str_each_def to_param_def py_str_def
  repr_str_def repr_quote_def repr_char_def is_printable_def insert_query_def placeholders_def
  drop_last2_def cursor_execute_def commit_def AC200_def service0_def pack_event_def
  new_statements_def is_insert_into_def raises_in_row_def row_param_def Let_def
  extra_event_def mixed_event_def

lemma pack_event_run:
  "handle_message (\<lambda>st. None) service0 \<lparr>device = AC200, parsed = pack_event\<rparr> =
     (Returned, service0\<lparr>conn := Some \<lparr>pending = [], committed =
        [(''INSERT INTO battery_pack_data (device, pack_num_max, total_battery_voltage, pack_num, pack_voltage, pack_battery_percent, cell_voltages) VALUES (%s, %s, %s, %s, %s, %s, %s)'',
          [PStr ''AC200-100'', PStr ''2'', PStr ''53.1'', PStr ''1'', PStr ''53.0'', PStr ''80'',
           PStr ''['3.31', '3.32']''])]\<rparr>\<rparr>)"
  by (simp add: eval_defs)

subsection \<open>Persisting an event\<close>

text \<open>
  Claim C1, as amended. The loop of \<^verbatim>\<open>_handle_message\<close> walks the items of the event,
  not the fields of the table: a table gets an insert exactly when every field of the
  event is one of its fields. For every event all of whose field names belong to a table
  of \<^verbatim>\<open>DATABASE_TABLES\<close>, with no item that raises, an open connection and a server
  that accepts every statement, \<^verbatim>\<open>_handle_message\<close> returns and has committed exactly
  one insert into that table: its columns are \<^verbatim>\<open>device\<close>, with the value
  \<^verbatim>\<open><type>-<serial>\<close>, and then the fields of the event in the order of the event.
\<close>

theorem persist_event_within_table:
  assumes "(k, tc) \<in> set DATABASE_TABLES"
    and "set (map fst (parsed msg)) \<subseteq> set (table_fields tc)"
    and "\<not> raises_in_row (parsed msg)"
    and "conn self = Some c" and "pending c = []"
    and "\<forall>st. rejects st = None"
  shows "\<exists>c'. handle_message rejects self msg = (Returned, self\<lparr>conn := Some c'\<rparr>)
          \<and> filter (is_insert_into (table_name tc)) (new_statements c c') =
              [(''INSERT INTO '' @ table_name tc @ '' (device, '' @ join_comma (map fst (parsed msg))
                  @ '') VALUES ('' @ placeholders (Suc (length (parsed msg))) @ '')'',
                PStr (dtype (device msg) @ ''-'' @ sn (device msg)) # map row_param (parsed msg))]"
proof -
  let ?dn = "dtype (device msg) @ ''-'' @ sn (device msg)"
  from persist_tables_accepting [OF assms(5,6,3), of ?dn DATABASE_TABLES] obtain c' where
    c': "persist_tables rejects ?dn (parsed msg) DATABASE_TABLES (Some c) = (Returned, Some c')"
        "committed c' = committed c @ built_statements ?dn (parsed msg) DATABASE_TABLES"
    by blast
  have "handle_message rejects self msg = (Returned, self\<lparr>conn := Some c'\<rparr>)"
    using c'(1) assms(4) by (simp add: handle_message_def)
  moreover have "filter (is_insert_into (table_name tc)) (new_statements c c') =
      built_one ?dn (parsed msg) tc"
    using c'(2) filter_built_statements [OF assms(1)] by (simp add: new_statements_def)
  ultimately show ?thesis
    using built_one_Completed [OF assms(2,3)] by auto
qed

text \<open>The theorem at an event that holds the six fields of \<^verbatim>\<open>battery_pack_data\<close>.\<close>

theorem persist_event_within_table_witness:
  "(''battery_pack_data'', battery_pack_data) \<in> set DATABASE_TABLES
   \<and> set (map fst pack_event) \<subseteq> set (table_fields battery_pack_data)
   \<and> \<not> raises_in_row pack_event
   \<and> filter (is_insert_into ''battery_pack_data'')
        (new_statements \<lparr>pending = [], committed = []\<rparr>
           (the (conn (snd (handle_message (\<lambda>st. None) service0 \<lparr>device = AC200, parsed = pack_event\<rparr>))))) =
        [(''INSERT INTO battery_pack_data (device, pack_num_max, total_battery_voltage, pack_num, pack_voltage, pack_battery_percent, cell_voltages) VALUES (%s, %s, %s, %s, %s, %s, %s)'',
          [PStr ''AC200-100'', PStr ''2'', PStr ''53.1'', PStr ''1'', PStr ''53.0'', PStr ''80'',
           PStr ''['3.31', '3.32']''])]"
proof -
  let ?msg = "\<lparr>device = AC200, parsed = pack_event\<rparr>"
  have h1: "(''battery_pack_data'', battery_pack_data) \<in> set DATABASE_TABLES"
    by (simp add: DATABASE_TABLES_def)
  have h2: "set (map fst (parsed ?msg)) \<subseteq> set (table_fields battery_pack_data)"
    by (simp add: pack_event_def battery_pack_data_def)
  have h3: "\<not> raises_in_row (parsed ?msg)"
    by (simp add: pack_event_def raises_in_row_def special_value_def str_each_def)
  have h4: "conn service0 = Some \<lparr>pending = [], committed = []\<rparr>" by (simp add: service0_def)
  have h5: "pending \<lparr>pending = [], committed = []\<rparr> = []" by simp
  have h6: "\<forall>st. (\<lambda>st :: statement. None :: string option) st = None" by simp
  from persist_event_within_table [OF h1 h2 h3 h4 h5 h6] obtain c' where
    run: "handle_message (\<lambda>st. None) service0 ?msg = (Returned, service0\<lparr>conn := Some c'\<rparr>)"
    and ins: "filter (is_insert_into (table_name battery_pack_data)) (new_statements \<lparr>pending = [], committed = []\<rparr> c') =
       [(''INSERT INTO '' @ table_name battery_pack_data @ '' (device, '' @ join_comma (map fst (parsed ?msg))
                  @ '') VALUES ('' @ placeholders (Suc (length (parsed ?msg))) @ '')'',
                PStr (dtype (device ?msg) @ ''-'' @ sn (device ?msg)) # map row_param (parsed ?msg))]"
    by blast
  have c': "the (conn (snd (handle_message (\<lambda>st. None) service0 ?msg))) = c'"
    using run by simp
  have rhs: "[(''INSERT INTO '' @ table_name battery_pack_data @ '' (device, '' @ join_comma (map fst (parsed ?msg))
                  @ '') VALUES ('' @ placeholders (Suc (length (parsed ?msg))) @ '')'',
                PStr (dtype (device ?msg) @ ''-'' @ sn (device ?msg)) # map row_param (parsed ?msg))] =
        [(''INSERT INTO battery_pack_data (device, pack_num_max, total_battery_voltage, pack_num, pack_voltage, pack_battery_percent, cell_voltages) VALUES (%s, %s, %s, %s, %s, %s, %s)'',
          [PStr ''AC200-100'', PStr ''2'', PStr ''53.1'', PStr ''1'', PStr ''53.0'', PStr ''80'',
           PStr ''['3.31', '3.32']''])]"
    by (simp add: eval_defs)
  have tn: "table_name battery_pack_data = ''battery_pack_data''" by (simp add: battery_pack_data_def)
  show ?thesis using h1 h2 h3 ins [unfolded rhs, unfolded tn] unfolding c' by simp
qed

text \<open>
  Claim C1 as stated fails. An event that holds every field of \<^verbatim>\<open>battery_pack_data\<close>
  and one field more gives no insert at all; an event that holds exactly these fields
  in the reverse order gives an insert whose columns are in the reverse order, not in
  the declared one.
\<close>

theorem persist_superset_counterexample:
  "set (table_fields battery_pack_data) \<subseteq> set (map fst extra_event)
   \<and> handle_message (\<lambda>st. None) service0 \<lparr>device = AC200, parsed = extra_event\<rparr> = (Returned, service0)
   \<and> set (table_fields battery_pack_data) \<subseteq> set (map fst (rev pack_event))
   \<and> handle_message (\<lambda>st. None) service0 \<lparr>device = AC200, parsed = rev pack_event\<rparr> =
       (Returned, service0\<lparr>conn := Some \<lparr>pending = [], committed =
          [(''INSERT INTO battery_pack_data (device, cell_voltages, pack_battery_percent, pack_voltage, pack_num, total_battery_voltage, pack_num_max) VALUES (%s, %s, %s, %s, %s, %s, %s)'',
            [PStr ''AC200-100'', PStr ''['3.31', '3.32']'', PStr ''80'', PStr ''53.0'', PStr ''1'',
             PStr ''53.1'', PStr ''2''])]\<rparr>\<rparr>)"
  by (simp add: eval_defs)

text \<open>
  Claim C2, as amended. For every event that holds a field name outside the field list of
  a table of \<^verbatim>\<open>DATABASE_TABLES\<close>, \<^verbatim>\<open>_handle_message\<close> commits no insert into that table,
  whatever the server answers and however the call ends. (An event that lacks fields of
  the table but holds no field outside it is inserted, as a row of the fields it has.)
\<close>

theorem persist_event_skips_table:
  assumes "(k, tc) \<in> set DATABASE_TABLES"
    and "\<not> set (map fst (parsed msg)) \<subseteq> set (table_fields tc)"
    and "conn self = Some c" and "pending c = []"
    and "handle_message rejects self msg = (out, self')"
  shows "\<exists>c'. conn self' = Some c'
          \<and> filter (is_insert_into (table_name tc)) (new_statements c c') = []"
proof -
  let ?dn = "dtype (device msg) @ ''-'' @ sn (device msg)"
  obtain o1 conn1 where p: "persist_tables rejects ?dn (parsed msg) DATABASE_TABLES (Some c) = (o1, conn1)"
    by (cases "persist_tables rejects ?dn (parsed msg) DATABASE_TABLES (Some c)")
  from persist_tables_prefix [OF assms(4) p] obtain c' ss rest where
    r: "conn1 = Some c'" "committed c' = committed c @ ss"
       "built_statements ?dn (parsed msg) DATABASE_TABLES = ss @ rest"
    by blast
  have "filter (is_insert_into (table_name tc)) (ss @ rest) = []"
    using filter_built_statements [OF assms(1), of ?dn "parsed msg"] built_one_missing [OF assms(2)] r(3)
    by simp
  then have "filter (is_insert_into (table_name tc)) ss = []" by simp
  moreover have "conn self' = Some c'"
    using assms(3,5) p r(1) by (auto simp: handle_message_def)
  ultimately show ?thesis using r(2) by (simp add: new_statements_def)
qed

text \<open>The theorem at an event of two fields, one of them outside \<^verbatim>\<open>general_data\<close>.\<close>

theorem persist_event_skips_table_witness:
  "(''general_data'', general_data) \<in> set DATABASE_TABLES
   \<and> \<not> set (map fst mixed_event) \<subseteq> set (table_fields general_data)
   \<and> filter (is_insert_into ''general_data'')
        (new_statements \<lparr>pending = [], committed = []\<rparr>
           (the (conn (snd (handle_message (\<lambda>st. None) service0 \<lparr>device = AC200, parsed = mixed_event\<rparr>))))) = []
   \<and> committed (the (conn (snd (handle_message (\<lambda>st. None) service0 \<lparr>device = AC200, parsed = mixed_event\<rparr>)))) =
        [(''INSERT INTO settings_data (device, ac_output_on, pack_num) VALUES (%s, %s, %s)'',
          [PStr ''AC200-100'', PBool True, PStr ''1''])]"
proof -
  let ?msg = "\<lparr>device = AC200, parsed = mixed_event\<rparr>"
  let ?run = "handle_message (\<lambda>st. None) service0 ?msg"
  have h1: "(''general_data'', general_data) \<in> set DATABASE_TABLES"
    by (simp add: DATABASE_TABLES_def)
  have h2: "\<not> set (map fst (parsed ?msg)) \<subseteq> set (table_fields general_data)"
    by (simp add: mixed_event_def general_data_def)
  have h3: "conn service0 = Some \<lparr>pending = [], committed = []\<rparr>" by (simp add: service0_def)
  have h4: "pending \<lparr>pending = [], committed = []\<rparr> = []" by simp
  have h5: "?run = (fst ?run, snd ?run)" by simp
  from persist_event_skips_table [OF h1 h2 h3 h4 h5] obtain c' where
    "conn (snd ?run) = Some c'"
    "filter (is_insert_into (table_name general_data)) (new_statements \<lparr>pending = [], committed = []\<rparr> c') = []"
    by blast
  moreover have "table_name general_data = ''general_data''" by (simp add: general_data_def)
  moreover have "committed (the (conn (snd ?run))) =
        [(''INSERT INTO settings_data (device, ac_output_on, pack_num) VALUES (%s, %s, %s)'',
          [PStr ''AC200-100'', PBool True, PStr ''1''])]"
    by (simp add: eval_defs)
  ultimately show ?thesis using h1 h2 by simp
qed

text \<open>
  Claim C2 as stated fails: an event that holds \<^verbatim>\<open>pack_num\<close> only lacks eleven of the
  twelve fields of \<^verbatim>\<open>settings_data\<close>, and a row with the one column is inserted there.
\<close>

theorem persist_partial_row_counterexample:
  "\<not> set (table_fields setting_data) \<subseteq> set (map fst [(''pack_num'', VOther ''1'' ''1'')])
   \<and> handle_message (\<lambda>st. None) service0 \<lparr>device = AC200, parsed = [(''pack_num'', VOther ''1'' ''1'')]\<rparr> =
       (Returned, service0\<lparr>conn := Some \<lparr>pending = [], committed =
          [(''INSERT INTO settings_data (device, pack_num) VALUES (%s, %s)'', [PStr ''AC200-100'', PStr ''1'']),
           (''INSERT INTO battery_pack_data (device, pack_num) VALUES (%s, %s)'', [PStr ''AC200-100'', PStr ''1''])]\<rparr>\<rparr>)"
  by (simp add: eval_defs)

subsection \<open>A failing insert\<close>

lemma persist_tables_append:
  "persist_tables rejects dn items (xs @ ys) cn =
     (case persist_tables rejects dn items xs cn of
        (Returned, conn1) \<Rightarrow> persist_tables rejects dn items ys conn1
      | (Raised e, conn1) \<Rightarrow> (Raised e, conn1))"
proof (induction xs arbitrary: cn)
  case Nil
  show ?case by simp
next
  case (Cons entry xs)
  obtain k tc where entry: "entry = (k, tc)" by (cases entry)
  show ?case
    by (simp add: entry Cons.IH split: loop_end.splits option.splits sum.splits)
qed

lemmas eval_defs3 = eval_defs rejects_settings_def strip_prefix.simps

text \<open>
  Claim C3, as amended. \<^verbatim>\<open>_handle_message\<close> has no handler around
  \<^verbatim>\<open>cursor.execute\<close>. When the insert of one table fails, after the tables before it
  were processed without an exception, the error of the driver propagates out of
  \<^verbatim>\<open>_handle_message\<close> as it is (the service adds nothing to it, so no table name), the
  inserts committed before stay committed, and the remaining tables are not processed:
  the outcome is the same whatever tables follow.
\<close>

theorem insert_failure_propagates:
  assumes "DATABASE_TABLES = before @ (k, tc) # remaining"
    and "persist_tables rejects (dtype (device msg) @ ''-'' @ sn (device msg)) (parsed msg) before (conn self)
           = (Returned, Some c1)"
    and "row_loop (table_fields tc) (parsed msg) [] [PStr (dtype (device msg) @ ''-'' @ sn (device msg))]
           = Completed valueOrder values"
    and "rejects (insert_query tc valueOrder values, values) = Some cause"
  shows "handle_message rejects self msg = (Raised (MariaDBError cause), self\<lparr>conn := Some c1\<rparr>)
         \<and> (\<forall>others. persist_tables rejects (dtype (device msg) @ ''-'' @ sn (device msg)) (parsed msg)
                (before @ (k, tc) # others) (conn self) = (Raised (MariaDBError cause), Some c1))"
proof -
  let ?dn = "dtype (device msg) @ ''-'' @ sn (device msg)"
  have one: "persist_tables rejects ?dn (parsed msg) ((k, tc) # others) (Some c1)
               = (Raised (MariaDBError cause), Some c1)" for others
    using assms(3,4) by (simp add: cursor_execute_def)
  have all: "persist_tables rejects ?dn (parsed msg) (before @ (k, tc) # others) (conn self)
               = (Raised (MariaDBError cause), Some c1)" for others
    using assms(2) one [of others] by (simp add: persist_tables_append)
  from all [of remaining] assms(1)
  have "handle_message rejects self msg = (Raised (MariaDBError cause), self\<lparr>conn := Some c1\<rparr>)"
    by (simp add: handle_message_def)
  with all show ?thesis by blast
qed

text \<open>The theorem at an event of the one field \<^verbatim>\<open>pack_num\<close>, with a server that rejects
  the inserts into \<^verbatim>\<open>settings_data\<close>.\<close>

theorem insert_failure_propagates_witness:
  "DATABASE_TABLES =
     [(''general_data'', general_data), (''internal_data'', internal_data)]
       @ (''setting_data'', setting_data) # [(''battery_pack_data'', battery_pack_data)]
   \<and> rejects_settings
        (''INSERT INTO settings_data (device, pack_num) VALUES (%s, %s)'', [PStr ''AC200-100'', PStr ''1''])
       = Some ''Deadlock found''
   \<and> handle_message rejects_settings service0 \<lparr>device = AC200, parsed = [(''pack_num'', VOther ''1'' ''1'')]\<rparr>
     = (Raised (MariaDBError ''Deadlock found''), service0)"
proof -
  let ?msg = "\<lparr>device = AC200, parsed = [(''pack_num'', VOther ''1'' ''1'')]\<rparr>"
  let ?dn = "dtype (device ?msg) @ ''-'' @ sn (device ?msg)"
  let ?vals = "[PStr ''AC200-100'', PStr ''1'']"
  have h1: "DATABASE_TABLES =
     [(''general_data'', general_data), (''internal_data'', internal_data)]
       @ (''setting_data'', setting_data) # [(''battery_pack_data'', battery_pack_data)]"
    by (simp add: DATABASE_TABLES_def)
  have h2: "persist_tables rejects_settings ?dn (parsed ?msg)
              [(''general_data'', general_data), (''internal_data'', internal_data)] (conn service0)
            = (Returned, Some \<lparr>pending = [], committed = []\<rparr>)"
    by (simp add: eval_defs3)
  have h3: "row_loop (table_fields setting_data) (parsed ?msg) [] [PStr ?dn]
              = Completed ''pack_num, '' ?vals"
    by (simp add: eval_defs3)
  have h4: "rejects_settings (insert_query setting_data ''pack_num, '' ?vals, ?vals) = Some ''Deadlock found''"
    by (simp add: eval_defs3)
  have q: "insert_query setting_data ''pack_num, '' ?vals =
             ''INSERT INTO settings_data (device, pack_num) VALUES (%s, %s)''"
    by (simp add: eval_defs3)
  have s0: "service0\<lparr>conn := Some \<lparr>pending = [], committed = []\<rparr>\<rparr> = service0"
    by (simp add: service0_def)
  from insert_failure_propagates [OF h1 h2 h3 h4] h1 h4 show ?thesis
    unfolding q s0 by simp
qed

text \<open>
  Claim C3 as stated fails. The event of the one field \<^verbatim>\<open>pack_num\<close> has an insert for
  \<^verbatim>\<open>settings_data\<close> and one for \<^verbatim>\<open>battery_pack_data\<close>; when the server rejects the
  first, the call raises the error of the driver and the second, which the server would
  accept, is never executed.
\<close>

theorem insert_failure_counterexample:
  "handle_message rejects_settings service0 \<lparr>device = AC200, parsed = [(''pack_num'', VOther ''1'' ''1'')]\<rparr>
     = (Raised (MariaDBError ''Deadlock found''), service0)
   \<and> built_one ''AC200-100'' [(''pack_num'', VOther ''1'' ''1'')] battery_pack_data =
       [(''INSERT INTO battery_pack_data (device, pack_num) VALUES (%s, %s)'', [PStr ''AC200-100'', PStr ''1''])]
   \<and> rejects_settings
        (''INSERT INTO battery_pack_data (device, pack_num) VALUES (%s, %s)'', [PStr ''AC200-100'', PStr ''1''])
       = None"
  by (simp add: eval_defs3 built_one_def)

subsection \<open>The shape of a statement\<close>

lemma count_placeholders_skip:
  "CHR ''%'' \<notin> set a \<Longrightarrow> count_placeholders (a @ b) = count_placeholders b"
proof (induction a)
  case Nil
  show ?case by simp
next
  case (Cons x xs)
  then have "count_placeholders (x # (xs @ b)) = count_placeholders (xs @ b)"
    by (cases "xs @ b") auto
  with Cons show ?case by simp
qed

lemma count_placeholders_replicate:
  "count_placeholders (concat (replicate m ''%s, '') @ r) = m + count_placeholders r"
proof (induction m)
  case 0
  show ?case by simp
next
  case (Suc m)
  have "count_placeholders ('', '' @ x) = count_placeholders x" for x
    by (rule count_placeholders_skip) simp
  with Suc show ?case by simp
qed

lemma placeholders_Suc: "placeholders (Suc n) = concat (replicate n ''%s, '') @ ''%s''"
proof -
  have "concat (replicate (Suc n) ''%s, '') = concat (replicate n ''%s, '') @ ''%s, ''"
    by (induction n) simp_all
  then show ?thesis by (simp add: placeholders_def drop_last2_def)
qed

lemma count_placeholders_tail: "count_placeholders (placeholders (Suc n) @ '')'') = Suc n"
  by (simp add: placeholders_Suc count_placeholders_replicate)

lemma split_comma_plain:
  "CHR '','' \<notin> set n \<Longrightarrow> split_comma acc n = [acc @ n]"
  by (induction acc n rule: split_comma.induct) auto

lemma split_comma_piece:
  "CHR '','' \<notin> set n \<Longrightarrow> split_comma acc (n @ '', '' @ r) = (acc @ n) # split_comma [] r"
proof (induction n arbitrary: acc)
  case Nil
  show ?case by simp
next
  case (Cons x xs)
  then have "split_comma acc (x # (xs @ '', '' @ r)) = split_comma (acc @ [x]) (xs @ '', '' @ r)"
    by (cases "xs @ '', '' @ r") auto
  with Cons show ?case by simp
qed

lemma split_comma_join:
  "\<forall>n\<in>set names. CHR '','' \<notin> set n \<Longrightarrow> names \<noteq> [] \<Longrightarrow>
   split_comma [] (join_comma names) = names"
proof (induction names rule: induct_list012)
  case 1
  then show ?case by simp
next
  case (2 x)
  then show ?case by (simp add: split_comma_plain)
next
  case (3 x y zs)
  then show ?case using split_comma_piece [of x "[]" "join_comma (y # zs)"] by simp
qed

lemma join_comma_set:
  "c \<in> set (join_comma names) \<Longrightarrow> c = CHR '','' \<or> c = CHR '' '' \<or> (\<exists>n\<in>set names. c \<in> set n)"
  by (induction names rule: join_comma.induct) auto

lemma tables_plain:
  "list_all (\<lambda>entry. plain_name (table_name (snd entry))
      \<and> list_all plain_name (table_fields (snd entry))) DATABASE_TABLES"
  by code_simp

lemma plain_name_chars:
  assumes "plain_name n"
  shows "n \<noteq> []" "CHR '','' \<notin> set n" "CHR ''%'' \<notin> set n" "CHR ''('' \<notin> set n" "CHR '')'' \<notin> set n"
proof -
  have "\<not> is_field_char (CHR '','')" "\<not> is_field_char (CHR ''%'')" "\<not> is_field_char (CHR ''('')"
    "\<not> is_field_char (CHR '')'')"
    by (simp_all add: is_field_char_def)
  with assms show "n \<noteq> []" "CHR '','' \<notin> set n" "CHR ''%'' \<notin> set n" "CHR ''('' \<notin> set n"
    "CHR '')'' \<notin> set n"
    by (auto simp: plain_name_def list_all_iff)
qed

lemma query_shape:
  assumes tn: "plain_name tn" and names: "\<forall>n\<in>set names. plain_name n"
  defines "q \<equiv> ''INSERT INTO '' @ tn @ '' (device, '' @ join_comma names @ '') VALUES (''
                  @ placeholders (Suc (length names)) @ '')''"
  shows "count_placeholders q = Suc (length names)" and "column_names q = ''device'' # names"
proof -
  have jc: "c \<in> set (join_comma names) \<Longrightarrow> c \<noteq> CHR ''%'' \<and> c \<noteq> CHR ''('' \<and> c \<noteq> CHR '')''" for c
    using join_comma_set [of c names] names plain_name_chars by auto
  have "CHR ''%'' \<notin> set (''INSERT INTO '' @ tn @ '' (device, '' @ join_comma names @ '') VALUES ('')"
    using plain_name_chars(3) [OF tn] jc by auto
  from count_placeholders_skip [OF this, of "placeholders (Suc (length names)) @ '')''"]
  show "count_placeholders q = Suc (length names)"
    by (simp add: q_def count_placeholders_tail)
  have d: "dropWhile (\<lambda>c. c \<noteq> CHR ''('') (''INSERT INTO '' @ tn @ '' '' @ CHR ''('' # r) = CHR ''('' # r" for r
  proof -
    have "dropWhile (\<lambda>c. c \<noteq> CHR ''('') (tn @ x) = dropWhile (\<lambda>c. c \<noteq> CHR ''('') x" for x
      using plain_name_chars(4) [OF tn] by (induction tn) auto
    from this [of "CHR '' '' # CHR ''('' # r"] show ?thesis by simp
  qed
  have t: "takeWhile (\<lambda>c. c \<noteq> CHR '')'') ((''device, '' @ join_comma names) @ CHR '')'' # r)
             = ''device, '' @ join_comma names" for r
  proof -
    have "\<And>c. c \<in> set (''device, '' @ join_comma names) \<Longrightarrow> c \<noteq> CHR '')''"
      using jc by auto
    from takeWhile_append2 [of "''device, '' @ join_comma names" "\<lambda>c. c \<noteq> CHR '')''", OF this]
    show ?thesis by simp
  qed
  have cols: "takeWhile (\<lambda>c. c \<noteq> CHR '')'') (drop 1 (dropWhile (\<lambda>c. c \<noteq> CHR ''('') q))
           = ''device, '' @ join_comma names"
    using d [of "''device, '' @ join_comma names @ '') VALUES ('' @ placeholders (Suc (length names)) @ '')''"]
      t [of "'' VALUES ('' @ placeholders (Suc (length names)) @ '')''"]
    by (simp add: q_def)
  have sp: "split_comma [] (''device, '' @ r) = ''device'' # split_comma [] r" for r
    using split_comma_piece [of "''device''" "[]" r] by simp
  show "column_names q = ''device'' # names"
  proof (cases "names = []")
    case True
    then show ?thesis unfolding column_names_def cols by (simp add: sp)
  next
    case False
    have "split_comma [] (join_comma names) = names"
      by (rule split_comma_join) (use names plain_name_chars(2) False in auto)
    moreover have "filter (\<lambda>name. name \<noteq> []) names = names"
      using names plain_name_chars(1) by (auto simp: filter_id_conv)
    ultimately show ?thesis unfolding column_names_def cols by (simp add: sp)
  qed
qed

lemma pack_event_row:
  "row_loop (table_fields battery_pack_data) pack_event [] [PStr ''AC200-100''] =
     Completed ''pack_num_max, total_battery_voltage, pack_num, pack_voltage, pack_battery_percent, cell_voltages, ''
       [PStr ''AC200-100'', PStr ''2'', PStr ''53.1'', PStr ''1'', PStr ''53.0'', PStr ''80'',
        PStr ''['3.31', '3.32']'']"
  by (simp add: eval_defs)

lemma empty_event_statement:
  "built_one dn [] general_data = [(''INSERT INTO general_data (device, ) VALUES (%s)'', [PStr dn])]"
  by (simp add: built_one_def insert_query_def placeholders_def drop_last2_def general_data_def)

text \<open>
  Claim C10. For every table of \<^verbatim>\<open>DATABASE_TABLES\<close> and every event for which the loop
  builds an insert, the number of \<^verbatim>\<open>%s\<close> in the query, the number of column names
  the query lists (\<^verbatim>\<open>device\<close> and the fields of the event, in this order) and the length
  of the list of values passed to \<^verbatim>\<open>execute\<close> are the same number, one more than the
  number of fields of the event.
\<close>

theorem insert_shape_consistent:
  assumes "(k, tc) \<in> set DATABASE_TABLES"
    and "row_loop (table_fields tc) items [] [PStr dn] = Completed valueOrder values"
  shows "count_placeholders (insert_query tc valueOrder values) = length values
         \<and> column_names (insert_query tc valueOrder values) = ''device'' # map fst items
         \<and> length (column_names (insert_query tc valueOrder values)) = length values
         \<and> length values = Suc (length items)"
proof -
  from assms(2) have sub: "set (map fst items) \<subseteq> set (table_fields tc)"
    and vo: "valueOrder = concat (map (\<lambda>item. fst item @ '', '') items)"
    and vals: "values = PStr dn # map row_param items"
    by (simp_all add: row_loop_Completed_iff)
  from assms(1) tables_plain have tn: "plain_name (table_name tc)"
    and fl: "\<forall>n\<in>set (table_fields tc). plain_name n"
    by (auto simp: list_all_iff)
  from sub fl have names: "\<forall>n\<in>set (map fst items). plain_name n" by blast
  have q: "insert_query tc valueOrder values =
             ''INSERT INTO '' @ table_name tc @ '' (device, '' @ join_comma (map fst items)
               @ '') VALUES ('' @ placeholders (Suc (length (map fst items))) @ '')''"
    by (simp add: insert_query_def vo vals drop_last2_columns)
  from query_shape [OF tn names] show ?thesis
    unfolding q by (simp add: vals)
qed

text \<open>The theorem at the event of the six fields of \<^verbatim>\<open>battery_pack_data\<close>.\<close>

theorem insert_shape_consistent_witness:
  "(''battery_pack_data'', battery_pack_data) \<in> set DATABASE_TABLES
   \<and> count_placeholders
        ''INSERT INTO battery_pack_data (device, pack_num_max, total_battery_voltage, pack_num, pack_voltage, pack_battery_percent, cell_voltages) VALUES (%s, %s, %s, %s, %s, %s, %s)''
       = 7
   \<and> column_names
        ''INSERT INTO battery_pack_data (device, pack_num_max, total_battery_voltage, pack_num, pack_voltage, pack_battery_percent, cell_voltages) VALUES (%s, %s, %s, %s, %s, %s, %s)''
       = [''device'', ''pack_num_max'', ''total_battery_voltage'', ''pack_num'', ''pack_voltage'',
          ''pack_battery_percent'', ''cell_voltages'']"
proof -
  have h1: "(''battery_pack_data'', battery_pack_data) \<in> set DATABASE_TABLES"
    by (simp add: DATABASE_TABLES_def)
  let ?vo = "''pack_num_max, total_battery_voltage, pack_num, pack_voltage, pack_battery_percent, cell_voltages, ''"
  let ?vals = "[PStr ''AC200-100'', PStr ''2'', PStr ''53.1'', PStr ''1'', PStr ''53.0'', PStr ''80'',
        PStr ''['3.31', '3.32']'']"
  have q: "insert_query battery_pack_data ?vo ?vals =
        ''INSERT INTO battery_pack_data (device, pack_num_max, total_battery_voltage, pack_num, pack_voltage, pack_battery_percent, cell_voltages) VALUES (%s, %s, %s, %s, %s, %s, %s)''"
    by (simp add: eval_defs)
  have m: "map fst pack_event = [''pack_num_max'', ''total_battery_voltage'', ''pack_num'', ''pack_voltage'',
          ''pack_battery_percent'', ''cell_voltages'']"
    by (simp add: pack_event_def)
  from insert_shape_consistent [OF h1 pack_event_row] h1 show ?thesis
    unfolding q m by simp
qed

subsection \<open>The values of a row\<close>

text \<open>
  Claim C9. In every row the loop builds, the value of the field \<^verbatim>\<open>cell_voltages\<close>, a
  list, is passed as the text of the list of its elements' \<^verbatim>\<open>str\<close>: the elements in
  quotes, separated by a comma and a space, in brackets. A \<^verbatim>\<open>bool\<close> is passed as it is,
  and every other value as its \<^verbatim>\<open>str\<close>.
\<close>

theorem row_values_serialized:
  assumes "row_loop flds items [] [PStr dn] = Completed valueOrder values"
    and "i < length items"
  shows "length values = Suc (length items)
    \<and> (fst (items ! i) = ''cell_voltages'' \<longrightarrow>
          (\<forall>vs. snd (items ! i) = VList vs \<longrightarrow>
             values ! Suc i = PStr (''['' @ join_comma (map (\<lambda>v. repr_str (py_str v)) vs) @ '']'')))
    \<and> (fst (items ! i) \<noteq> ''cell_voltages'' \<longrightarrow>
          (\<forall>b. snd (items ! i) = VBool b \<longrightarrow> values ! Suc i = PBool b)
          \<and> ((\<forall>b. snd (items ! i) \<noteq> VBool b) \<longrightarrow> values ! Suc i = PStr (py_str (snd (items ! i)))))"
proof -
  from assms(1) have vals: "values = PStr dn # map row_param items"
    by (simp add: row_loop_Completed_iff)
  with assms(2) have nth: "values ! Suc i = row_param (items ! i)" by simp
  have cell: "row_param (n, VList vs) = PStr (''['' @ join_comma (map (\<lambda>v. repr_str (py_str v)) vs) @ '']'')"
    if "n = ''cell_voltages''" for n vs
    using that by (simp add: row_param_def special_value_def str_each_def to_param_def py_str_def comp_def)
  have other: "row_param (n, v) = to_param v" if "n \<noteq> ''cell_voltages''" for n v
    using that by (simp add: row_param_def special_value_def)
  have tb: "to_param (VBool b) = PBool b" for b by (simp add: to_param_def)
  have ts: "to_param v = PStr (py_str v)" if "\<forall>b. v \<noteq> VBool b" for v
    using that by (cases v) (auto simp: to_param_def)
  show ?thesis
    using vals nth cell [of "fst (items ! i)"] other [of "fst (items ! i)" "snd (items ! i)"] tb ts
    by (cases "items ! i") auto
qed

text \<open>The theorem at the last item of the same event, the cell voltages.\<close>

theorem row_values_serialized_witness:
  "row_loop (table_fields battery_pack_data) pack_event [] [PStr ''AC200-100''] =
     Completed ''pack_num_max, total_battery_voltage, pack_num, pack_voltage, pack_battery_percent, cell_voltages, ''
       [PStr ''AC200-100'', PStr ''2'', PStr ''53.1'', PStr ''1'', PStr ''53.0'', PStr ''80'',
        PStr ''['3.31', '3.32']'']
   \<and> (5::nat) < length pack_event
   \<and> pack_event ! 5 = (''cell_voltages'', VList [VOther ''3.31'' ''Decimal('3.31')'', VOther ''3.32'' ''Decimal('3.32')''])
   \<and> PStr ''['3.31', '3.32']'' =
       PStr (''['' @ join_comma (map (\<lambda>v. repr_str (py_str v))
          [VOther ''3.31'' ''Decimal('3.31')'', VOther ''3.32'' ''Decimal('3.32')'']) @ '']'')"
proof -
  have h2: "(5::nat) < length pack_event" by (simp add: pack_event_def)
  have i5: "pack_event ! 5 = (''cell_voltages'', VList [VOther ''3.31'' ''Decimal('3.31')'', VOther ''3.32'' ''Decimal('3.32')''])"
    by (simp add: pack_event_def)
  from row_values_serialized [OF pack_event_row h2] pack_event_row h2 i5 show ?thesis
    by simp
qed

subsection \<open>Registering a device\<close>

lemma device_in_iff: "device_in d ds \<longleftrightarrow> d \<in> set ds"
  by (auto simp: device_in_def device_eq_def list_ex_iff)

lemma AC200_again_differs: "AC200_again \<noteq> AC200"
proof
  assume "AC200_again = AC200"
  then have "oid AC200_again = oid AC200" by simp
  then show False by (simp add: AC200_again_def AC200_def)
qed

text \<open>
  Claim C6, as amended. Registration is idempotent under the identity of the device
  object, which is what the membership test of the source compares: registering a
  device object that is not in the registry, and then the same object again, finds it
  new the first time and not new the second time; the second registration changes
  nothing, the object is stored once, at the end of the list, and the registry has grown
  by exactly one.
\<close>

theorem register_same_object_twice:
  assumes "d \<notin> set (devices self)"
  shows "was_new self d
    \<and> \<not> was_new (register_device self d) d
    \<and> register_device (register_device self d) d = register_device self d
    \<and> devices (register_device (register_device self d) d) = devices self @ [d]
    \<and> length (devices (register_device (register_device self d) d)) = Suc (length (devices self))"
proof -
  have new1: "was_new self d"
    using assms by (simp add: was_new_def device_in_iff)
  then have r1: "register_device self d = self\<lparr>devices := devices self @ [d]\<rparr>"
    by (simp add: register_device_def init_device_def)
  have new2: "\<not> was_new (register_device self d) d"
    unfolding r1 by (simp add: was_new_def device_in_iff)
  then have r2: "register_device (register_device self d) d = register_device self d"
    by (simp add: register_device_def)
  show ?thesis
    using new1 new2 r2 by (simp add: r1)
qed

text \<open>The theorem at the device \<^verbatim>\<open>AC200-100\<close> and a service that knows no device.\<close>

theorem register_same_object_twice_witness:
  "AC200 \<notin> set (devices empty_service)
   \<and> was_new empty_service AC200
   \<and> \<not> was_new (register_device empty_service AC200) AC200
   \<and> devices (register_device (register_device empty_service AC200) AC200) = [AC200]"
proof -
  have h: "AC200 \<notin> set (devices empty_service)" by (simp add: empty_service_def)
  have e: "devices empty_service = []" by (simp add: empty_service_def)
  note t = register_same_object_twice [OF h]
  from t have a: "was_new empty_service AC200" by blast
  from t have b: "\<not> was_new (register_device empty_service AC200) AC200" by blast
  from t have c: "devices (register_device (register_device empty_service AC200) AC200)
      = devices empty_service @ [AC200]"
    by blast
  from h a b c show ?thesis unfolding e by simp
qed

text \<open>
  Claim C6 as stated fails. Two device objects with the same pair (type, serial) are
  both found new and both registered: the registry grows by two, and the lookup by the
  pair finds the first of them.
\<close>

theorem register_same_pair_counterexample:
  "dtype AC200_again = dtype AC200 \<and> sn AC200_again = sn AC200
   \<and> was_new empty_service AC200
   \<and> was_new (register_device empty_service AC200) AC200_again
   \<and> devices (register_device (register_device empty_service AC200) AC200_again) = [AC200, AC200_again]
   \<and> find_device [AC200, AC200_again] ''AC200'' ''100'' = Some AC200"
proof -
  have a: "dtype AC200_again = dtype AC200 \<and> sn AC200_again = sn AC200"
    by (simp add: AC200_again_def)
  have b: "was_new empty_service AC200"
    by (simp add: was_new_def device_in_iff empty_service_def)
  have r: "register_device empty_service AC200 = empty_service\<lparr>devices := [AC200]\<rparr>"
    using b by (simp add: register_device_def init_device_def empty_service_def)
  have c: "was_new (register_device empty_service AC200) AC200_again"
    using AC200_again_differs by (simp add: r was_new_def device_in_iff)
  have d: "devices (register_device (register_device empty_service AC200) AC200_again) = [AC200, AC200_again]"
    unfolding r using c [unfolded r] by (simp add: register_device_def init_device_def)
  have e: "find_device [AC200, AC200_again] ''AC200'' ''100'' = Some AC200"
    by (simp add: find_device_def AC200_def)
  from a b c d e show ?thesis by blast
qed

subsection \<open>Routing a command\<close>

lemmas topic_defs = COMMAND_TOPIC_RE_match_def is_word_char_def is_digit_char_def is_field_char_def
  Let_def

lemma topic_ac_output_on:
  "COMMAND_TOPIC_RE_match ''bluetti/command/AC200-100/ac_output_on'' = Some (''AC200'', ''100'', ''ac_output_on'')"
  by (simp add: topic_defs)

lemma topic_battery_range_start:
  "COMMAND_TOPIC_RE_match ''bluetti/command/AC200-100/battery_range_start''
     = Some (''AC200'', ''100'', ''battery_range_start'')"
  by (simp add: topic_defs)

lemma topic_ups_mode:
  "COMMAND_TOPIC_RE_match ''bluetti/command/AC200-100/ups_mode'' = Some (''AC200'', ''100'', ''ups_mode'')"
  by (simp add: topic_defs)

lemma topic_no_field:
  "COMMAND_TOPIC_RE_match ''bluetti/command/AC200-100'' = None"
  by (simp add: topic_defs)

lemma find_AC200: "find_device (devices service0) ''AC200'' ''100'' = Some AC200"
  by (simp add: find_device_def service0_def AC200_def)

lemma fields_ac_output_on:
  "NORMAL_DEVICE_FIELDS ''ac_output_on'' = Some \<lparr> type = Member BOOL, setter = True, advanced = False \<rparr>"
  by (simp add: NORMAL_DEVICE_FIELDS_def NORMAL_DEVICE_FIELDS_items_def)

lemma fields_battery_range_start:
  "NORMAL_DEVICE_FIELDS ''battery_range_start'' = Some \<lparr> type = Member NUMERIC, setter = True, advanced = False \<rparr>"
  by (simp add: NORMAL_DEVICE_FIELDS_def NORMAL_DEVICE_FIELDS_items_def)

text \<open>
  What the pattern matches: the prefix, a non-empty run of word characters, a hyphen, a
  non-empty run of digits, a slash and a non-empty run of lower-case letters and
  underscores, and after them nothing or one newline.
\<close>

lemma strip_prefix_Some_iff: "strip_prefix p s = Some r \<longleftrightarrow> s = p @ r"
  by (induction p s rule: strip_prefix.induct) auto

lemma span_unique:
  assumes "\<forall>x\<in>set a. P x" and "r = [] \<or> \<not> P (hd r)"
  shows "takeWhile P (a @ r) = a" and "dropWhile P (a @ r) = r"
  using assms by (induction a) (auto simp: takeWhile_eq_Nil_iff dropWhile_eq_self_iff)

lemma class_separators:
  "\<not> is_word_char (CHR ''-'')" "\<not> is_digit_char (CHR ''/'')" "\<not> is_field_char (CHR 0x0A)"
  by (simp_all add: is_word_char_def is_digit_char_def is_field_char_def)

lemma COMMAND_TOPIC_RE_match_iff:
  "COMMAND_TOPIC_RE_match topic = Some (t, s, f) \<longleftrightarrow>
     t \<noteq> [] \<and> list_all is_word_char t \<and> s \<noteq> [] \<and> list_all is_digit_char s
     \<and> f \<noteq> [] \<and> list_all is_field_char f
     \<and> (topic = ''bluetti/command/'' @ t @ ''-'' @ s @ ''/'' @ f
        \<or> topic = ''bluetti/command/'' @ t @ ''-'' @ s @ ''/'' @ f @ [CHR 0x0A])"
  (is "?L \<longleftrightarrow> ?R")
proof
  assume ?L
  then obtain r1 where r1: "strip_prefix ''bluetti/command/'' topic = Some r1"
    by (auto simp: COMMAND_TOPIC_RE_match_def split: option.splits)
  from \<open>?L\<close> r1 obtain c2 r2 where r2: "dropWhile is_word_char r1 = c2 # r2"
    by (auto simp: COMMAND_TOPIC_RE_match_def Let_def split: list.splits)
  from \<open>?L\<close> r1 r2 obtain c3 r3 where r3: "dropWhile is_digit_char r2 = c3 # r3"
    by (auto simp: COMMAND_TOPIC_RE_match_def Let_def split: list.splits)
  from \<open>?L\<close> r1 r2 r3 have parts: "t = takeWhile is_word_char r1" "s = takeWhile is_digit_char r2"
    "f = takeWhile is_field_char r3" "t \<noteq> []" "s \<noteq> []" "f \<noteq> []" "c2 = CHR ''-''" "c3 = CHR ''/''"
    "dropWhile is_field_char r3 = [] \<or> dropWhile is_field_char r3 = [CHR 0x0A]"
    by (auto simp: COMMAND_TOPIC_RE_match_def Let_def split: if_splits)
  have e1: "r1 = t @ c2 # r2" using takeWhile_dropWhile_id [of is_word_char r1] r2 parts(1) by simp
  have e2: "r2 = s @ c3 # r3" using takeWhile_dropWhile_id [of is_digit_char r2] r3 parts(2) by simp
  have e3: "r3 = f @ dropWhile is_field_char r3"
    using takeWhile_dropWhile_id [of is_field_char r3] parts(3) by simp
  have all: "list_all is_word_char t" "list_all is_digit_char s" "list_all is_field_char f"
    unfolding parts(1-3) list_all_iff by (auto dest: set_takeWhileD)
  have "topic = ''bluetti/command/'' @ t @ ''-'' @ s @ ''/'' @ f @ dropWhile is_field_char r3"
    using r1 e1 e2 e3 parts(7,8) by (simp add: strip_prefix_Some_iff)
  with parts(4,5,6,9) all show ?R by auto
next
  assume R: ?R
  then obtain tail where tail: "tail = [] \<or> tail = [CHR 0x0A]"
    and topic: "topic = ''bluetti/command/'' @ t @ ''-'' @ s @ ''/'' @ f @ tail"
    by auto
  from R have wt: "\<forall>x\<in>set t. is_word_char x" and ds: "\<forall>x\<in>set s. is_digit_char x"
    and ff: "\<forall>x\<in>set f. is_field_char x" and ne: "t \<noteq> []" "s \<noteq> []" "f \<noteq> []"
    by (auto simp: list_all_iff)
  have sp: "strip_prefix ''bluetti/command/'' topic = Some (t @ CHR ''-'' # s @ CHR ''/'' # f @ tail)"
    by (simp add: strip_prefix_Some_iff topic)
  have a: "takeWhile is_word_char (t @ CHR ''-'' # s @ CHR ''/'' # f @ tail) = t"
    "dropWhile is_word_char (t @ CHR ''-'' # s @ CHR ''/'' # f @ tail) = CHR ''-'' # s @ CHR ''/'' # f @ tail"
    using span_unique [OF wt, of "CHR ''-'' # s @ CHR ''/'' # f @ tail"] class_separators(1) by simp_all
  have b: "takeWhile is_digit_char (s @ CHR ''/'' # f @ tail) = s"
    "dropWhile is_digit_char (s @ CHR ''/'' # f @ tail) = CHR ''/'' # f @ tail"
    using span_unique [OF ds, of "CHR ''/'' # f @ tail"] class_separators(2) by simp_all
  have c: "takeWhile is_field_char (f @ tail) = f" "dropWhile is_field_char (f @ tail) = tail"
    using span_unique [OF ff, of tail] tail class_separators(3) by auto
  have "COMMAND_TOPIC_RE_match topic =
          (if tail = [] \<or> tail = [CHR 0x0A] then Some (t, s, f) else None)"
    by (simp only: COMMAND_TOPIC_RE_match_def sp option.case Let_def a b c list.case)
       (simp add: ne)
  with tail show ?L by auto
qed

lemma COMMAND_TOPIC_RE_match_newline:
  "COMMAND_TOPIC_RE_match (''bluetti/command/AC200-100/ac_output_on'' @ [CHR 0x0A])
     = Some (''AC200'', ''100'', ''ac_output_on'')"
  by (simp add: COMMAND_TOPIC_RE_match_def is_word_char_def is_digit_char_def is_field_char_def Let_def)

text \<open>What the grammar holds: the same texts, without the newline.\<close>

lemma topic_grammar_iff:
  "topic_grammar topic = Some (t, s, f) \<longleftrightarrow>
     t \<noteq> [] \<and> list_all is_word_char t \<and> s \<noteq> [] \<and> list_all is_digit_char s
     \<and> f \<noteq> [] \<and> list_all is_field_char f
     \<and> topic = ''bluetti/command/'' @ t @ ''-'' @ s @ ''/'' @ f"
  (is "?L \<longleftrightarrow> ?R")
proof
  assume ?L
  then obtain r1 where r1: "strip_prefix ''bluetti/command/'' topic = Some r1"
    by (auto simp: topic_grammar_def split: option.splits)
  from \<open>?L\<close> r1 obtain c2 r2 where r2: "dropWhile is_word_char r1 = c2 # r2"
    by (auto simp: topic_grammar_def Let_def split: list.splits)
  from \<open>?L\<close> r1 r2 obtain c3 r3 where r3: "dropWhile is_digit_char r2 = c3 # r3"
    by (auto simp: topic_grammar_def Let_def split: list.splits)
  from \<open>?L\<close> r1 r2 r3 have parts: "t = takeWhile is_word_char r1" "s = takeWhile is_digit_char r2"
    "f = r3" "t \<noteq> []" "s \<noteq> []" "f \<noteq> []" "c2 = CHR ''-''" "c3 = CHR ''/''" "list_all is_field_char f"
    by (auto simp: topic_grammar_def Let_def split: if_splits)
  have e1: "r1 = t @ c2 # r2" using takeWhile_dropWhile_id [of is_word_char r1] r2 parts(1) by simp
  have e2: "r2 = s @ c3 # r3" using takeWhile_dropWhile_id [of is_digit_char r2] r3 parts(2) by simp
  have all: "list_all is_word_char t" "list_all is_digit_char s"
    unfolding parts(1,2) list_all_iff by (auto dest: set_takeWhileD)
  have "topic = ''bluetti/command/'' @ t @ ''-'' @ s @ ''/'' @ f"
    using r1 e1 e2 parts(3,7,8) by (simp add: strip_prefix_Some_iff)
  with parts(4,5,6,9) all show ?R by auto
next
  assume R: ?R
  then have topic: "topic = ''bluetti/command/'' @ t @ ''-'' @ s @ ''/'' @ f" by auto
  from R have wt: "\<forall>x\<in>set t. is_word_char x" and ds: "\<forall>x\<in>set s. is_digit_char x"
    and ff: "list_all is_field_char f" and ne: "t \<noteq> []" "s \<noteq> []" "f \<noteq> []"
    by (auto simp: list_all_iff)
  have sp: "strip_prefix ''bluetti/command/'' topic = Some (t @ CHR ''-'' # s @ CHR ''/'' # f)"
    by (simp add: strip_prefix_Some_iff topic)
  have a: "takeWhile is_word_char (t @ CHR ''-'' # s @ CHR ''/'' # f) = t"
    "dropWhile is_word_char (t @ CHR ''-'' # s @ CHR ''/'' # f) = CHR ''-'' # s @ CHR ''/'' # f"
    using span_unique [OF wt, of "CHR ''-'' # s @ CHR ''/'' # f"] class_separators(1) by simp_all
  have b: "takeWhile is_digit_char (s @ CHR ''/'' # f) = s"
    "dropWhile is_digit_char (s @ CHR ''/'' # f) = CHR ''/'' # f"
    using span_unique [OF ds, of "CHR ''/'' # f"] class_separators(2) by simp_all
  show ?L
    by (simp only: topic_grammar_def sp option.case Let_def a b list.case) (simp add: ne ff)
qed

lemma unmatched_topic_dropped:
  assumes "COMMAND_TOPIC_RE_match topic = None"
  shows "handle_command lim self topic payload
           = (Returned, self\<lparr>warnings := warnings self @ [UnknownCommandTopic topic]\<rparr>)"
  using assms by (simp add: handle_command_def handle_command_with_def warn_def)

text \<open>A topic outside the grammar is logged and dropped, unless it is a topic of the
  grammar with a newline after it.\<close>

lemma topic_outside_grammar_dropped:
  assumes "topic_grammar topic = None"
    and "\<forall>t. topic = t @ [CHR 0x0A] \<longrightarrow> topic_grammar t = None"
  shows "handle_command lim self topic payload
           = (Returned, self\<lparr>warnings := warnings self @ [UnknownCommandTopic topic]\<rparr>)"
proof -
  have "COMMAND_TOPIC_RE_match topic = None"
  proof (cases "COMMAND_TOPIC_RE_match topic")
    case None
    then show ?thesis .
  next
    case (Some g)
    obtain t s f where g: "g = (t, s, f)" by (cases g)
    let ?x = "''bluetti/command/'' @ t @ ''-'' @ s @ ''/'' @ f"
    from Some have m: "t \<noteq> [] \<and> list_all is_word_char t \<and> s \<noteq> [] \<and> list_all is_digit_char s
        \<and> f \<noteq> [] \<and> list_all is_field_char f" and t: "topic = ?x \<or> topic = ?x @ [CHR 0x0A]"
      unfolding g COMMAND_TOPIC_RE_match_iff by auto
    from m have gx: "topic_grammar ?x = Some (t, s, f)" unfolding topic_grammar_iff by simp
    from t show ?thesis
    proof
      assume "topic = ?x"
      with gx assms(1) show ?thesis by simp
    next
      assume "topic = ?x @ [CHR 0x0A]"
      with assms(2) have "topic_grammar ?x = None" by blast
      with gx show ?thesis by simp
    qed
  qed
  then show ?thesis by (rule unmatched_topic_dropped)
qed

text \<open>
  Claim C5: the code departs from it. The pattern ends in \<^verbatim>\<open>$\<close>, which in Python also
  matches before a newline that ends the text. The topic
  \<^verbatim>\<open>bluetti/command/AC200-100/ac_output_on\<close> followed by a newline is outside the grammar,
  and \<^verbatim>\<open>_handle_command\<close> does not log and drop it: it calls the setter and puts the
  command on the bus, with nothing logged.
\<close>

theorem newline_topic_routed:
  "topic_grammar (''bluetti/command/AC200-100/ac_output_on'' @ [CHR 0x0A]) = None
   \<and> handle_command 4300 service0 (''bluetti/command/AC200-100/ac_output_on'' @ [CHR 0x0A]) ''ON''
       = (Returned, service0\<lparr>bus := [(AC200, (''ac_output_on'', SBool True))]\<rparr>)"
proof -
  have g: "topic_grammar (''bluetti/command/AC200-100/ac_output_on'' @ [CHR 0x0A]) = None"
    by (simp add: topic_grammar_def is_word_char_def is_digit_char_def is_field_char_def Let_def)
  have s: "has_field_setter AC200 ''ac_output_on''" by (simp add: AC200_def)
  have b: "build_setter_command AC200 n v = Inr (n, v)" for n v by (simp add: AC200_def)
  have "handle_command 4300 service0 (''bluetti/command/AC200-100/ac_output_on'' @ [CHR 0x0A]) ''ON''
       = (Returned, service0\<lparr>bus := [(AC200, (''ac_output_on'', SBool True))]\<rparr>)"
    using COMMAND_TOPIC_RE_match_newline find_AC200 s fields_ac_output_on
    by (simp add: handle_command_def handle_command_with_def setter_value_of_def b service0_def)
  with g show ?thesis by simp
qed

text \<open>
  Claim C7. For every command on a field of \<^verbatim>\<open>NORMAL_DEVICE_FIELDS\<close> whose type is
  \<^verbatim>\<open>BOOL\<close> or \<^verbatim>\<open>BUTTON\<close>, for a known device that has a setter for the field, the
  setter is called with the \<^verbatim>\<open>bool\<close> that is true exactly when the payload is the two
  bytes \<^verbatim>\<open>ON\<close>, and the command it builds is put on the bus.
\<close>

theorem boolean_payload_routed:
  assumes "COMMAND_TOPIC_RE_match topic = Some (m1, m2, m3)"
    and "find_device (devices self) m1 m2 = Some d"
    and "has_field_setter d m3"
    and "NORMAL_DEVICE_FIELDS m3 = Some field"
    and "type field = Member BOOL \<or> type field = Member BUTTON"
  shows "handle_command lim self topic payload =
           (case build_setter_command d m3 (SBool (payload = ''ON'')) of
              Inl e \<Rightarrow> (Raised e, self)
            | Inr cmd \<Rightarrow> (Returned, self\<lparr>bus := bus self @ [(d, cmd)]\<rparr>))"
  using assms by (auto simp: handle_command_def handle_command_with_def setter_value_of_def)

text \<open>The theorem at the topic \<^verbatim>\<open>bluetti/command/AC200-100/ac_output_on\<close>, with the
  payloads \<^verbatim>\<open>ON\<close> and \<^verbatim>\<open>OFF\<close>.\<close>

theorem boolean_payload_routed_witness:
  "handle_command 4300 service0 ''bluetti/command/AC200-100/ac_output_on'' ''ON''
     = (Returned, service0\<lparr>bus := [(AC200, (''ac_output_on'', SBool True))]\<rparr>)
   \<and> handle_command 4300 service0 ''bluetti/command/AC200-100/ac_output_on'' ''OFF''
     = (Returned, service0\<lparr>bus := [(AC200, (''ac_output_on'', SBool False))]\<rparr>)"
proof -
  have s: "has_field_setter AC200 ''ac_output_on''" by (simp add: AC200_def)
  have t: "type \<lparr> type = Member BOOL, setter = True, advanced = False \<rparr> = Member BOOL
           \<or> type \<lparr> type = Member BOOL, setter = True, advanced = False \<rparr> = Member BUTTON"
    by simp
  have b: "build_setter_command AC200 n v = Inr (n, v)" for n v by (simp add: AC200_def)
  have e: "bus service0 = []" by (simp add: service0_def)
  from boolean_payload_routed [OF topic_ac_output_on find_AC200 s fields_ac_output_on t, of 4300 "''ON''"]
       boolean_payload_routed [OF topic_ac_output_on find_AC200 s fields_ac_output_on t, of 4300 "''OFF''"]
  show ?thesis by (simp add: b e)
qed

text \<open>
  Claim C8. A field whose type is none of the four members of \<^verbatim>\<open>MessageFieldType\<close>
  makes \<^verbatim>\<open>_handle_command\<close> raise \<^verbatim>\<open>AssertionError\<close>: the exception propagates,
  nothing is logged and nothing is dropped silently. For each of the four members the
  decoding of the payload never raises \<^verbatim>\<open>AssertionError\<close>, and every entry of
  \<^verbatim>\<open>NORMAL_DEVICE_FIELDS\<close> has one of the four members as its type.
\<close>

theorem unknown_kind_is_hard_failure:
  "(COMMAND_TOPIC_RE_match topic = Some (m1, m2, m3) \<and> find_device (devices self) m1 m2 = Some d
      \<and> has_field_setter d m3 \<and> table m3 = Some field \<and> type field = NonMember
      \<longrightarrow> handle_command_with table lim self topic payload = (Raised AssertionError, self))
   \<and> setter_value_of lim (Member kind) payload \<noteq> Inl AssertionError
   \<and> (NORMAL_DEVICE_FIELDS name = Some cfg \<longrightarrow> (\<exists>known. type cfg = Member known))"
proof (intro conjI impI)
  assume "COMMAND_TOPIC_RE_match topic = Some (m1, m2, m3) \<and> find_device (devices self) m1 m2 = Some d
      \<and> has_field_setter d m3 \<and> table m3 = Some field \<and> type field = NonMember"
  then show "handle_command_with table lim self topic payload = (Raised AssertionError, self)"
    by (simp add: handle_command_with_def setter_value_of_def)
next
  show "setter_value_of lim (Member kind) payload \<noteq> Inl AssertionError"
    by (cases kind) (auto simp: setter_value_of_def decode_ascii_def py_int_def Let_def
        split: sum.splits if_splits prod.splits)
next
  assume "NORMAL_DEVICE_FIELDS name = Some cfg"
  then have "(name, cfg) \<in> set NORMAL_DEVICE_FIELDS_items"
    by (simp add: NORMAL_DEVICE_FIELDS_def map_of_SomeD)
  moreover have "list_all (\<lambda>entry. type (snd entry) \<noteq> NonMember) NORMAL_DEVICE_FIELDS_items"
    by (simp add: NORMAL_DEVICE_FIELDS_items_def)
  ultimately have "type cfg \<noteq> NonMember" by (auto simp: list_all_iff)
  then show "\<exists>known. type cfg = Member known" by (cases "type cfg") auto
qed

text \<open>The theorem at a table whose entry for \<^verbatim>\<open>ups_mode\<close> has an unknown type.\<close>

theorem unknown_kind_is_hard_failure_witness:
  "COMMAND_TOPIC_RE_match ''bluetti/command/AC200-100/ups_mode'' = Some (''AC200'', ''100'', ''ups_mode'')
   \<and> mystery_table ''ups_mode'' = Some \<lparr> type = NonMember, setter = True, advanced = False \<rparr>
   \<and> handle_command_with mystery_table 4300 service0 ''bluetti/command/AC200-100/ups_mode'' ''STANDARD''
       = (Raised AssertionError, service0)
   \<and> NORMAL_DEVICE_FIELDS ''ac_output_on'' = Some \<lparr> type = Member BOOL, setter = True, advanced = False \<rparr>"
proof -
  have s: "has_field_setter AC200 ''ups_mode''" by (simp add: AC200_def)
  have m: "mystery_table ''ups_mode'' = Some \<lparr> type = NonMember, setter = True, advanced = False \<rparr>"
    by (simp add: mystery_table_def)
  have t: "type \<lparr> type = NonMember, setter = True, advanced = False \<rparr> = NonMember" by simp
  from unknown_kind_is_hard_failure [where topic = "''bluetti/command/AC200-100/ups_mode''"
      and ?m1.0 = "''AC200''" and ?m2.0 = "''100''" and ?m3.0 = "''ups_mode''" and self = service0
      and d = AC200 and table = mystery_table
      and field = "\<lparr> type = NonMember, setter = True, advanced = False \<rparr>"
      and lim = 4300 and payload = "''STANDARD''" and kind = BOOL and name = "''ac_output_on''"
      and cfg = "\<lparr> type = Member BOOL, setter = True, advanced = False \<rparr>"]
    topic_ups_mode find_AC200 s m t fields_ac_output_on
  show ?thesis by simp
qed

subsection \<open>Numeric payloads\<close>

lemma digits_value_snoc:
  "digits_value (ds @ [d]) = 10 * digits_value ds + (of_char d - 48)"
  by (simp add: digits_value_def)

lemma digits_value_55: "digits_value ''55'' = 55"
  by (simp add: digits_value_def)

lemma digit_char_facts:
  assumes "is_digit_char c"
  shows "\<not> is_space_char c" "\<not> is_underscore c" "c \<noteq> CHR ''-''" "c \<noteq> CHR ''+''"
    "(of_char c :: nat) < 128"
  using assms by (auto simp: is_digit_char_def is_space_char_def is_underscore_def Let_def)

lemma single_underscores_digits:
  "list_all is_digit_char s \<Longrightarrow> single_underscores s"
  by (induction s rule: single_underscores.induct) (auto dest: digit_char_facts(2))

lemma py_int_digits:
  assumes "s \<noteq> []" and "list_all is_digit_char s" and "lim = 0 \<or> length s \<le> lim"
  shows "py_int lim s = Inr (int (digits_value s))"
proof -
  from assms(1) obtain c cs where s: "s = c # cs" by (cases s) auto
  with assms(2) have c: "is_digit_char c" by simp
  have all: "\<forall>x\<in>set s. is_digit_char x" using assms(2) by (simp add: list_all_iff)
  have d1: "dropWhile is_space_char s = s"
    using c digit_char_facts(1) by (simp add: s)
  have tw: "takeWhile (\<lambda>c. is_digit_char c \<or> is_underscore c) s = s"
    using all by (simp add: takeWhile_eq_all_conv)
  have dw: "dropWhile (\<lambda>c. is_digit_char c \<or> is_underscore c) s = []"
    using all by simp
  have f: "filter is_digit_char s = s" using all by (simp add: filter_id_conv)
  have l: "is_digit_char (last s)" using all assms(1) by simp
  have sign: "(case s of c # cs \<Rightarrow> if c = CHR ''-'' then (True, cs)
                                   else if c = CHR ''+'' then (False, cs) else (False, s)
                       | [] \<Rightarrow> (False, s)) = (False, s)"
    using c digit_char_facts(3,4) [OF c] by (simp add: s)
  have h: "\<not> is_underscore (hd s)" using c digit_char_facts(2) by (simp add: s)
  show ?thesis
    unfolding py_int_def Let_def d1 sign prod.case tw dw f
    using assms(1,3) h digit_char_facts(2) [OF l] single_underscores_digits [OF assms(2)]
    by auto
qed

lemma decode_ascii_digits: "list_all is_digit_char s \<Longrightarrow> decode_ascii s = Inr s"
  using digit_char_facts(5) by (auto simp: decode_ascii_def list_all_iff)

lemma py_int_no_digit:
  assumes "\<not> list_ex is_digit_char s"
  shows "py_int lim s = Inl ValueError"
proof -
  have nd: "\<not> list_ex is_digit_char t" if "set t \<subseteq> set s" for t
    using assms that by (auto simp: list_ex_iff)
  define s1 where "s1 = dropWhile is_space_char s"
  define s2 where "s2 = snd (case s1 of c # cs \<Rightarrow> if c = CHR ''-'' then (True, cs)
                                   else if c = CHR ''+'' then (False, cs) else (False, s1)
                       | [] \<Rightarrow> (False, s1))"
  define body where "body = takeWhile (\<lambda>c. is_digit_char c \<or> is_underscore c) s2"
  have "set s1 \<subseteq> set s" unfolding s1_def by (auto dest: set_dropWhileD)
  moreover have "set s2 \<subseteq> set s1" unfolding s2_def by (auto split: list.splits)
  moreover have "set body \<subseteq> set s2" unfolding body_def by (auto dest: set_takeWhileD)
  ultimately have "\<not> list_ex is_digit_char body" using nd by blast
  moreover have "\<forall>x\<in>set body. is_digit_char x \<or> is_underscore x"
    unfolding body_def by (auto dest: set_takeWhileD)
  ultimately have "body = [] \<or> is_underscore (hd body)"
    by (cases body) (auto simp: list_ex_iff)
  then show ?thesis
    unfolding py_int_def s1_def [symmetric] Let_def
    by (auto simp: body_def s2_def split: prod.splits list.splits if_splits)
qed

text \<open>
  Claim C4, as amended. For every command on a \<^verbatim>\<open>NUMERIC\<close> field of
  \<^verbatim>\<open>NORMAL_DEVICE_FIELDS\<close>, for a known device that has a setter for the field: a
  payload of ASCII decimal digits (within the interpreter's limit on digits) calls the
  setter with the integer the digits denote and puts the command on the bus; a payload
  without any digit makes \<^verbatim>\<open>_handle_command\<close> raise \<^verbatim>\<open>ValueError\<close> (or
  \<^verbatim>\<open>UnicodeDecodeError\<close>, when a byte is not ASCII); and whenever the payload is not
  decoded to an integer, one of these two exceptions propagates, with nothing put on
  the bus and nothing logged.
\<close>

theorem numeric_payload_routed:
  assumes "COMMAND_TOPIC_RE_match topic = Some (m1, m2, m3)"
    and "find_device (devices self) m1 m2 = Some d"
    and "has_field_setter d m3"
    and "NORMAL_DEVICE_FIELDS m3 = Some field"
    and "type field = Member NUMERIC"
  shows "(payload \<noteq> [] \<and> list_all is_digit_char payload \<and> (lim = 0 \<or> length payload \<le> lim) \<longrightarrow>
            handle_command lim self topic payload =
              (case build_setter_command d m3 (SInt (int (digits_value payload))) of
                 Inl e \<Rightarrow> (Raised e, self)
               | Inr cmd \<Rightarrow> (Returned, self\<lparr>bus := bus self @ [(d, cmd)]\<rparr>)))
       \<and> (\<not> list_ex is_digit_char payload \<longrightarrow>
            handle_command lim self topic payload =
              (Raised (if list_all (\<lambda>c. (of_char c :: nat) < 128) payload then ValueError
                       else UnicodeDecodeError), self))
       \<and> ((\<forall>n. setter_value_of lim (Member NUMERIC) payload \<noteq> Inr (SInt n)) \<longrightarrow>
            (handle_command lim self topic payload = (Raised ValueError, self)
             \<or> handle_command lim self topic payload = (Raised UnicodeDecodeError, self)))"
proof (intro conjI impI)
  assume p: "payload \<noteq> [] \<and> list_all is_digit_char payload \<and> (lim = 0 \<or> length payload \<le> lim)"
  then have "setter_value_of lim (Member NUMERIC) payload = Inr (SInt (int (digits_value payload)))"
    by (simp add: setter_value_of_def decode_ascii_digits py_int_digits)
  with assms show "handle_command lim self topic payload =
              (case build_setter_command d m3 (SInt (int (digits_value payload))) of
                 Inl e \<Rightarrow> (Raised e, self)
               | Inr cmd \<Rightarrow> (Returned, self\<lparr>bus := bus self @ [(d, cmd)]\<rparr>))"
    by (simp add: handle_command_def handle_command_with_def)
next
  assume "\<not> list_ex is_digit_char payload"
  then have "setter_value_of lim (Member NUMERIC) payload =
      Inl (if list_all (\<lambda>c. (of_char c :: nat) < 128) payload then ValueError else UnicodeDecodeError)"
    by (simp add: setter_value_of_def decode_ascii_def py_int_no_digit)
  with assms show "handle_command lim self topic payload =
              (Raised (if list_all (\<lambda>c. (of_char c :: nat) < 128) payload then ValueError
                       else UnicodeDecodeError), self)"
    by (simp add: handle_command_def handle_command_with_def)
next
  assume n: "\<forall>n. setter_value_of lim (Member NUMERIC) payload \<noteq> Inr (SInt n)"
  have "py_int lim s = Inl ValueError \<or> (\<exists>n. py_int lim s = Inr n)" for s
    by (auto simp: py_int_def Let_def split: prod.splits)
  from this [of payload]
  have "setter_value_of lim (Member NUMERIC) payload = Inl ValueError
    \<or> setter_value_of lim (Member NUMERIC) payload = Inl UnicodeDecodeError
    \<or> (\<exists>n. setter_value_of lim (Member NUMERIC) payload = Inr (SInt n))"
    by (cases "list_all (\<lambda>c. (of_char c :: nat) < 128) payload")
       (auto simp: setter_value_of_def decode_ascii_def)
  with n have "setter_value_of lim (Member NUMERIC) payload = Inl ValueError
    \<or> setter_value_of lim (Member NUMERIC) payload = Inl UnicodeDecodeError"
    by blast
  with assms show "handle_command lim self topic payload = (Raised ValueError, self)
             \<or> handle_command lim self topic payload = (Raised UnicodeDecodeError, self)"
    by (auto simp: handle_command_def handle_command_with_def)
qed

text \<open>The theorem at the topic \<^verbatim>\<open>bluetti/command/AC200-100/battery_range_start\<close>, with
  the payloads \<^verbatim>\<open>55\<close> and \<^verbatim>\<open>abc\<close>.\<close>

theorem numeric_payload_routed_witness:
  "handle_command 4300 service0 ''bluetti/command/AC200-100/battery_range_start'' ''55''
     = (Returned, service0\<lparr>bus := [(AC200, (''battery_range_start'', SInt 55))]\<rparr>)
   \<and> handle_command 4300 service0 ''bluetti/command/AC200-100/battery_range_start'' ''abc''
     = (Raised ValueError, service0)"
proof -
  have s: "has_field_setter AC200 ''battery_range_start''" by (simp add: AC200_def)
  have t: "type \<lparr> type = Member NUMERIC, setter = True, advanced = False \<rparr> = Member NUMERIC"
    by simp
  have b: "build_setter_command AC200 n v = Inr (n, v)" for n v by (simp add: AC200_def)
  have e: "bus service0 = []" by (simp add: service0_def)
  have d55: "''55'' \<noteq> [] \<and> list_all is_digit_char ''55'' \<and> ((4300::nat) = 0 \<or> length ''55'' \<le> 4300)"
    by (simp add: is_digit_char_def)
  have abc: "\<not> list_ex is_digit_char ''abc''" "list_all (\<lambda>c. (of_char c :: nat) < 128) ''abc''"
    by (simp_all add: is_digit_char_def)
  note r = numeric_payload_routed [OF topic_battery_range_start find_AC200 s fields_battery_range_start t]
  from r [of "''55''" 4300] r [of "''abc''" 4300] d55 abc show ?thesis
    by (simp add: b e digits_value_55)
qed

text \<open>
  Claim C4 as stated fails: with the payload \<^verbatim>\<open>abc\<close> the call does not log and return,
  it raises \<^verbatim>\<open>ValueError\<close>; the log of warnings stays empty.
\<close>

theorem numeric_payload_counterexample:
  "handle_command 4300 service0 ''bluetti/command/AC200-100/battery_range_start'' ''abc''
     = (Raised ValueError, service0)
   \<and> warnings service0 = [] \<and> bus service0 = []"
proof -
  have "py_int 4300 ''abc'' = Inl ValueError"
    by (simp add: py_int_def is_space_char_def is_digit_char_def is_underscore_def Let_def)
  moreover have "decode_ascii ''abc'' = Inr ''abc''" by (simp add: decode_ascii_def)
  moreover have "has_field_setter AC200 ''battery_range_start''" by (simp add: AC200_def)
  ultimately show ?thesis
    using topic_battery_range_start find_AC200 fields_battery_range_start
    by (simp add: handle_command_def handle_command_with_def setter_value_of_def service0_def)
qed

end
